theory Spec2Isabelle
  imports Main "HOL-Library.Word" "HOL-Library.Char_ord" "HOL-Library.List_Lexorder" "HOL-Library.AList"
begin

section \<open>Registry blob operations (registry/blob.go)\<close>

text \<open>
  The operations of \<^verbatim>\<open>registry/blob.go\<close> talk to a registry through an
  \<^verbatim>\<open>http.Client\<close>. The client and the peer behind it are the environment: they are a
  parameter of the model, a function from a peer state and a request to the Go pair
  \<^verbatim>\<open>(resp, err)\<close> and the next peer state. Every exchange and every
  \<^verbatim>\<open>Body.Close\<close> is recorded in the world the operations thread through, so that
  theorems can speak about the requests that were issued and the bodies that were released.
  \<^verbatim>\<open>Logf\<close> only writes diagnostics and is left out.
\<close>

subsection \<open>Errors, bodies, requests and responses\<close>

type_synonym byte = "8 word"

text \<open>
  Modelled from the spec: the type \<^verbatim>\<open>*HttpStatusError\<close> is declared outside blob.go. The
  spec describes it as a peer rejection, a non-success status code wrapped with its status;
  blob.go reads \<^verbatim>\<open>Response.StatusCode\<close> of it, which is what the constructor carries.
  \<^verbatim>\<open>*url.Error\<close> has the fields Op, URL and Err. A run-time panic (slice bounds) is a
  value of its own.
\<close>

datatype error =
    UrlError string string error
  | HttpStatusError int
  | OtherError string
  | Panic string

text \<open>
  A response body is a stream: the bytes the peer sent and, possibly, the error that
  reading hits after them. The handle names the stream in the world's list of closed bodies.
\<close>

record body =
  body_handle :: nat
  body_bytes :: "byte list"
  body_err :: "error option"

text \<open>\<^verbatim>\<open>http.Header\<close> is a Go map from a key to its values; it is kept as an association
  list with one entry for each key, whose order carries no meaning.\<close>

type_synonym header = "(string \<times> string list) list"

record response =
  StatusCode :: int
  Header :: header
  ContentLength :: int
  Body :: body

record request =
  Method :: string
  Url :: string
  ReqHeader :: header
  ReqContentLength :: int
  ReqBody :: "byte list"

text \<open>
  The pair \<^verbatim>\<open>(resp, err)\<close> an \<^verbatim>\<open>http.Client\<close> returns: a response, an error, or
  (when a redirect check fails) both. It never returns neither.
\<close>

datatype result = Resp response | Fail error | RespFail response error

fun resp_of :: "result \<Rightarrow> response option" where
  "resp_of (Resp r) = Some r"
| "resp_of (Fail e) = None"
| "resp_of (RespFail r e) = Some r"

fun err_of :: "result \<Rightarrow> error option" where
  "err_of (Resp r) = None"
| "err_of (Fail e) = Some e"
| "err_of (RespFail r e) = Some e"

text \<open>\<^verbatim>\<open>Header.Get\<close>: the first value stored under the key, the empty string when there is
  none. \<^verbatim>\<open>Header.Set\<close> replaces the values of the key by one value. Every key blob.go
  uses is in canonical form already.\<close>

definition Header_Get :: "header \<Rightarrow> string \<Rightarrow> string" where
  "Header_Get h k = (case map_of h k of None \<Rightarrow> [] | Some [] \<Rightarrow> [] | Some (v # vs) \<Rightarrow> v)"

definition Header_Set :: "request \<Rightarrow> string \<Rightarrow> string \<Rightarrow> request" where
  "Header_Set req k v = req\<lparr>ReqHeader := AList.update k [v] (ReqHeader req)\<rparr>"

subsection \<open>Strings and numbers\<close>

definition code_of :: "char \<Rightarrow> nat" where
  "code_of c = of_char c"

definition is_alpha :: "char \<Rightarrow> bool" where
  "is_alpha c = ((97 \<le> code_of c \<and> code_of c \<le> 122) \<or> (65 \<le> code_of c \<and> code_of c \<le> 90))"

definition is_digit :: "char \<Rightarrow> bool" where
  "is_digit c = (48 \<le> code_of c \<and> code_of c \<le> 57)"

definition ishex :: "char \<Rightarrow> bool" where
  "ishex c = (is_digit c \<or> (97 \<le> code_of c \<and> code_of c \<le> 102) \<or> (65 \<le> code_of c \<and> code_of c \<le> 70))"

definition to_lower :: "char \<Rightarrow> char" where
  "to_lower c = (if 65 \<le> code_of c \<and> code_of c \<le> 90 then char_of (code_of c + 32) else c)"

text \<open>\<^verbatim>\<open>strings.Cut\<close> at a one-byte separator: the text before the first occurrence, the
  text after it, and whether the separator was found.\<close>

definition Cut :: "string \<Rightarrow> char \<Rightarrow> string \<times> string \<times> bool" where
  "Cut s sep = (takeWhile (\<lambda>c. c \<noteq> sep) s, drop 1 (dropWhile (\<lambda>c. c \<noteq> sep) s), sep \<in> set s)"

definition HasPrefix :: "string \<Rightarrow> string \<Rightarrow> bool" where
  "HasPrefix s p = (take (length p) s = p)"

text \<open>\<^verbatim>\<open>strconv.Itoa\<close> and the verb \<^verbatim>\<open>%d\<close>: decimal digits, a minus sign for a
  negative number.\<close>

definition digit_char :: "int \<Rightarrow> char" where
  "digit_char d = char_of (48 + d)"

function digits :: "int \<Rightarrow> string" where
  "digits n = (if n < 10 then [digit_char n] else digits (n div 10) @ [digit_char (n mod 10)])"
  by pat_completeness auto
termination
  by (relation "measure nat") auto

declare digits.simps [simp del]

definition Itoa :: "int \<Rightarrow> string" where
  "Itoa i = (if i < 0 then CHR ''-'' # digits (- i) else digits i)"

subsection \<open>The part of net/url that blob.go uses\<close>

text \<open>
  \<^verbatim>\<open>url.URL\<close> with the fields that \<^verbatim>\<open>url.Parse\<close> fills and \<^verbatim>\<open>String\<close> writes.
  The authority, the path and the fragment are kept as they were written: the split of the
  authority into user and host, the validation of the host, and the decoded forms of path
  and fragment (with their \<^verbatim>\<open>RawPath\<close> and \<^verbatim>\<open>RawFragment\<close> hints) are not
  modelled. blob.go reads and writes \<^verbatim>\<open>RawQuery\<close> only and otherwise passes the
  location through \<^verbatim>\<open>String\<close>.
\<close>

record URL =
  Scheme :: string
  Opaque :: string
  Host :: string
  Path :: string
  OmitHost :: bool
  ForceQuery :: bool
  RawQuery :: string
  Fragment :: string

definition empty_URL :: URL where
  "empty_URL = \<lparr>Scheme = [], Opaque = [], Host = [], Path = [], OmitHost = False,
     ForceQuery = False, RawQuery = [], Fragment = []\<rparr>"

definition stringContainsCTLByte :: "string \<Rightarrow> bool" where
  "stringContainsCTLByte s = (\<exists>c \<in> set s. code_of c < 32 \<or> code_of c = 127)"

text \<open>\<^verbatim>\<open>getScheme\<close>: the scheme is the text before the first colon when it is letters,
  digits, plus, minus and dot and starts with a letter; a colon in first position is an
  error; anything else means there is no scheme.\<close>

fun getScheme_loop :: "string \<Rightarrow> string \<Rightarrow> string \<Rightarrow> error + (string \<times> string)" where
  "getScheme_loop rawURL pre [] = Inr ([], rawURL)"
| "getScheme_loop rawURL pre (c # cs) =
     (if is_alpha c then getScheme_loop rawURL (pre @ [c]) cs
      else if is_digit c \<or> c = CHR ''+'' \<or> c = CHR ''-'' \<or> c = CHR ''.'' then
        (if pre = [] then Inr ([], rawURL) else getScheme_loop rawURL (pre @ [c]) cs)
      else if c = CHR '':'' then
        (if pre = [] then Inl (OtherError ''missing protocol scheme'') else Inr (pre, cs))
      else Inr ([], rawURL))"

definition getScheme :: "string \<Rightarrow> error + (string \<times> string)" where
  "getScheme rawURL = getScheme_loop rawURL [] rawURL"

text \<open>The check \<^verbatim>\<open>unescape\<close> makes before decoding a path or a fragment: every percent
  sign is followed by two hexadecimal digits.\<close>

fun valid_escapes :: "string \<Rightarrow> bool" where
  "valid_escapes [] = True"
| "valid_escapes (c # cs) =
     (if c = CHR ''%'' then
        (case cs of a # b # rest \<Rightarrow> ishex a \<and> ishex b \<and> valid_escapes rest | _ \<Rightarrow> False)
      else valid_escapes cs)"

definition parse :: "string \<Rightarrow> error + URL" where
  "parse rawURL =
    (if stringContainsCTLByte rawURL then
       Inl (OtherError ''net/url: invalid control character in URL'')
     else if rawURL = ''*'' then Inr (empty_URL\<lparr>Path := ''*''\<rparr>)
     else case getScheme rawURL of
       Inl e \<Rightarrow> Inl e
     | Inr (scheme, rest0) \<Rightarrow>
       let url = empty_URL\<lparr>Scheme := map to_lower scheme\<rparr>;
           force = (rest0 \<noteq> [] \<and> last rest0 = CHR ''?'' \<and> count_list rest0 (CHR ''?'') = 1);
           rest = (if force then butlast rest0 else fst (Cut rest0 (CHR ''?'')));
           url = (if force then url\<lparr>ForceQuery := True\<rparr>
                  else url\<lparr>RawQuery := fst (snd (Cut rest0 (CHR ''?'')))\<rparr>)
       in if \<not> HasPrefix rest ''/'' \<and> Scheme url \<noteq> [] then Inr (url\<lparr>Opaque := rest\<rparr>)
          else if \<not> HasPrefix rest ''/'' \<and> CHR '':'' \<in> set (fst (Cut rest (CHR ''/''))) then
            Inl (OtherError ''first path segment in URL cannot contain colon'')
          else
            let has_authority = ((Scheme url \<noteq> [] \<or> \<not> HasPrefix rest ''///'') \<and> HasPrefix rest ''//'');
                authority = (if has_authority then takeWhile (\<lambda>c. c \<noteq> CHR ''/'') (drop 2 rest) else []);
                rest = (if has_authority then dropWhile (\<lambda>c. c \<noteq> CHR ''/'') (drop 2 rest) else rest);
                url = (if has_authority then url\<lparr>Host := authority\<rparr>
                       else if Scheme url \<noteq> [] \<and> HasPrefix rest ''/'' then url\<lparr>OmitHost := True\<rparr>
                       else url)
            in if \<not> valid_escapes rest then Inl (OtherError ''invalid URL escape'')
               else Inr (url\<lparr>Path := rest\<rparr>))"

text \<open>\<^verbatim>\<open>url.Parse\<close>: the fragment is cut off first, the rest is parsed, and a failure is
  wrapped in a \<^verbatim>\<open>*url.Error\<close> with the operation \<^verbatim>\<open>parse\<close>.\<close>

definition url_Parse :: "string \<Rightarrow> error + URL" where
  "url_Parse rawURL =
    (let u = fst (Cut rawURL (CHR ''#'')); frag = fst (snd (Cut rawURL (CHR ''#'')))
     in case parse u of
          Inl err \<Rightarrow> Inl (UrlError ''parse'' u err)
        | Inr url \<Rightarrow>
            if frag = [] then Inr url
            else if \<not> valid_escapes frag then
              Inl (UrlError ''parse'' rawURL (OtherError ''invalid URL escape''))
            else Inr (url\<lparr>Fragment := frag\<rparr>))"

text \<open>\<^verbatim>\<open>URL.String\<close>: scheme, then the opaque part or authority and path, then the query
  when there is one (or it was forced), then the fragment.\<close>

definition url_String :: "URL \<Rightarrow> string" where
  "url_String u =
    (let buf = (if Scheme u \<noteq> [] then Scheme u @ '':'' else []);
         buf = (if Opaque u \<noteq> [] then buf @ Opaque u
                else
                  let buf = (if Scheme u \<noteq> [] \<or> Host u \<noteq> [] then
                               (if OmitHost u \<and> Host u = [] then buf
                                else (if Host u \<noteq> [] \<or> Path u \<noteq> [] then buf @ ''//'' else buf) @ Host u)
                             else buf);
                      buf = (if Path u \<noteq> [] \<and> hd (Path u) \<noteq> CHR ''/'' \<and> Host u \<noteq> [] then buf @ ''/'' else buf);
                      buf = (if buf = [] \<and> CHR '':'' \<in> set (fst (Cut (Path u) (CHR ''/''))) then buf @ ''./'' else buf)
                  in buf @ Path u);
         buf = (if ForceQuery u \<or> RawQuery u \<noteq> [] then buf @ ''?'' @ RawQuery u else buf)
     in if Fragment u \<noteq> [] then buf @ ''#'' @ Fragment u else buf)"

subsection \<open>The registry, the world and the client\<close>

text \<open>
  Modelled from the spec: the struct \<^verbatim>\<open>Registry\<close> is declared outside blob.go. The spec
  describes it as a configured client, a base address and a logging hook in one object;
  the model keeps the base address and the client. The client's transport is any function
  of the peer's state and the request.
\<close>

record 's Registry =
  URL :: string
  Client :: "'s \<Rightarrow> request \<Rightarrow> result \<times> 's"

record 's world =
  peer :: 's
  sent :: "(request \<times> result) list"
  closed :: "nat list"

text \<open>Modelled from the spec: \<^verbatim>\<open>Registry.url\<close> is not in blob.go. The wire contract
  gives each request's path below the peer's base address, so the address is the base
  followed by the formatted path.\<close>

definition registry_url :: "'s Registry \<Rightarrow> string \<Rightarrow> string" where
  "registry_url registry path = URL registry @ path"

text \<open>Each response the client hands out gets a fresh body handle: the number of
  exchanges made before it.\<close>

fun stamp :: "nat \<Rightarrow> result \<Rightarrow> result" where
  "stamp n (Resp r) = Resp (r\<lparr>Body := (Body r)\<lparr>body_handle := n\<rparr>\<rparr>)"
| "stamp n (Fail e) = Fail e"
| "stamp n (RespFail r e) = RespFail (r\<lparr>Body := (Body r)\<lparr>body_handle := n\<rparr>\<rparr>) e"

definition Client_Do :: "'s Registry \<Rightarrow> request \<Rightarrow> 's world \<Rightarrow> result \<times> 's world" where
  "Client_Do registry req w =
    (let (res, p) = Client registry (peer w) req;
         res = stamp (length (sent w)) res
     in (res, w\<lparr>peer := p, sent := sent w @ [(req, res)]\<rparr>))"

definition Body_Close :: "body \<Rightarrow> 's world \<Rightarrow> 's world" where
  "Body_Close b w = w\<lparr>closed := closed w @ [body_handle b]\<rparr>"

text \<open>\<^verbatim>\<open>http.NewRequest\<close> parses the address and fails when it does not parse (the
  methods blob.go passes are all valid). The request is recorded with the address it was
  built from; for a byte buffer the content length is the number of bytes, and a
  \<^verbatim>\<open>nil\<close> body is the empty one.\<close>

definition http_NewRequest :: "string \<Rightarrow> string \<Rightarrow> byte list \<Rightarrow> error + request" where
  "http_NewRequest method url content =
    (case url_Parse url of
       Inl err \<Rightarrow> Inl err
     | Inr u \<Rightarrow> Inr \<lparr>Method = method, Url = url, ReqHeader = [],
                    ReqContentLength = int (length content), ReqBody = content\<rparr>)"

text \<open>\<^verbatim>\<open>Client.Get\<close>, \<^verbatim>\<open>Client.Head\<close> and \<^verbatim>\<open>Client.Post\<close> build the request and
  pass it to \<^verbatim>\<open>Do\<close>.\<close>

definition Client_Get :: "'s Registry \<Rightarrow> string \<Rightarrow> 's world \<Rightarrow> result \<times> 's world" where
  "Client_Get registry url w =
    (case http_NewRequest ''GET'' url [] of
       Inl err \<Rightarrow> (Fail err, w)
     | Inr req \<Rightarrow> Client_Do registry req w)"

definition Client_Head :: "'s Registry \<Rightarrow> string \<Rightarrow> 's world \<Rightarrow> result \<times> 's world" where
  "Client_Head registry url w =
    (case http_NewRequest ''HEAD'' url [] of
       Inl err \<Rightarrow> (Fail err, w)
     | Inr req \<Rightarrow> Client_Do registry req w)"

definition Client_Post :: "'s Registry \<Rightarrow> string \<Rightarrow> string \<Rightarrow> byte list \<Rightarrow> 's world \<Rightarrow> result \<times> 's world" where
  "Client_Post registry url contentType content w =
    (case http_NewRequest ''POST'' url content of
       Inl err \<Rightarrow> (Fail err, w)
     | Inr req \<Rightarrow> Client_Do registry (Header_Set req ''Content-Type'' contentType) w)"

text \<open>\<^verbatim>\<open>ioutil.ReadAll\<close>: the bytes of the stream, or the error reading ran into.\<close>

definition ReadAll :: "body \<Rightarrow> error + byte list" where
  "ReadAll b = (case body_err b of Some err \<Rightarrow> Inl err | None \<Rightarrow> Inr (body_bytes b))"

text \<open>The deferred \<^verbatim>\<open>resp.Body.Close()\<close> that follows \<^verbatim>\<open>if resp != nil\<close>: it runs
  when the function returns, whatever it returns.\<close>

definition defer_close :: "result \<Rightarrow> 's world \<Rightarrow> 's world" where
  "defer_close res w = (case resp_of res of Some resp \<Rightarrow> Body_Close (Body resp) w | None \<Rightarrow> w)"

subsection \<open>Reading operations\<close>

text \<open>\<^verbatim>\<open>DownloadBlob\<close> hands the body of the response to the caller, who closes it.\<close>

definition DownloadBlob :: "'s Registry \<Rightarrow> string \<Rightarrow> string \<Rightarrow> 's world \<Rightarrow> (error + body) \<times> 's world" where
  "DownloadBlob registry repository digest w =
    (let url = registry_url registry (''/v2/'' @ repository @ ''/blobs/'' @ digest);
         (res, w) = Client_Get registry url w
     in case res of
          Fail err \<Rightarrow> (Inl err, w)
        | RespFail resp err \<Rightarrow> (Inl err, w)
        | Resp resp \<Rightarrow> (Inr (Body resp), w))"

definition GetBlobContent :: "'s Registry \<Rightarrow> string \<Rightarrow> string \<Rightarrow> 's world \<Rightarrow> (error + byte list) \<times> 's world" where
  "GetBlobContent registry repository digest w =
    (let url = registry_url registry (''/v2/'' @ repository @ ''/blobs/'' @ digest);
         (res, w) = Client_Get registry url w
     in case res of
          Fail err \<Rightarrow> (Inl err, defer_close res w)
        | RespFail resp err \<Rightarrow> (Inl err, defer_close res w)
        | Resp resp \<Rightarrow>
            (case ReadAll (Body resp) of
               Inl err \<Rightarrow> (Inl err, defer_close res w)
             | Inr buf \<Rightarrow> (Inr buf, defer_close res w)))"

text \<open>\<^verbatim>\<open>HasBlob\<close> returns the Go pair \<^verbatim>\<open>(bool, error)\<close>.\<close>

definition HasBlob :: "'s Registry \<Rightarrow> string \<Rightarrow> string \<Rightarrow> 's world \<Rightarrow> (bool \<times> error option) \<times> 's world" where
  "HasBlob registry repository digest w =
    (let checkUrl = registry_url registry (''/v2/'' @ repository @ ''/blobs/'' @ digest);
         (res, w) = Client_Head registry checkUrl w
     in case res of
          Resp resp \<Rightarrow> ((StatusCode resp = 200, None), defer_close res w)
        | _ \<Rightarrow>
          (case err_of res of
             Some (UrlError op u (HttpStatusError code)) \<Rightarrow>
               if code = 404 then ((False, None), defer_close res w)
               else ((False, err_of res), defer_close res w)
           | _ \<Rightarrow> ((False, err_of res), defer_close res w)))"

text \<open>\<^verbatim>\<open>distribution.Descriptor\<close>, without the fields \<^verbatim>\<open>Annotations\<close> and
  \<^verbatim>\<open>Platform\<close>, which blob.go never sets; the zero value has every field empty.\<close>

record Descriptor =
  MediaType :: string
  Size :: int
  Digest :: string
  URLs :: "string list"

definition empty_Descriptor :: Descriptor where
  "empty_Descriptor = \<lparr>MediaType = [], Size = 0, Digest = [], URLs = []\<rparr>"

definition BlobMetadata :: "'s Registry \<Rightarrow> string \<Rightarrow> string \<Rightarrow> 's world \<Rightarrow> (Descriptor \<times> error option) \<times> 's world" where
  "BlobMetadata registry repository digest w =
    (let checkUrl = registry_url registry (''/v2/'' @ repository @ ''/blobs/'' @ digest);
         (res, w) = Client_Head registry checkUrl w
     in case res of
          Resp resp \<Rightarrow> ((empty_Descriptor\<lparr>Digest := digest, Size := ContentLength resp\<rparr>, None), defer_close res w)
        | _ \<Rightarrow> ((empty_Descriptor, err_of res), defer_close res w))"

subsection \<open>Query values\<close>

text \<open>
  \<^verbatim>\<open>url.Values\<close> is a Go map from a key to the list of its values; it is kept as an
  association list with one entry for each key. \<^verbatim>\<open>Encode\<close> sorts the keys, so the order
  of the entries carries no meaning.
\<close>

type_synonym Values = "(string \<times> string list) list"

definition values_get :: "Values \<Rightarrow> string \<Rightarrow> string list" where
  "values_get m k = (case map_of m k of None \<Rightarrow> [] | Some vs \<Rightarrow> vs)"

definition values_Set :: "Values \<Rightarrow> string \<Rightarrow> string \<Rightarrow> Values" where
  "values_Set m k v = AList.update k [v] m"

definition values_append :: "Values \<Rightarrow> string \<Rightarrow> string \<Rightarrow> Values" where
  "values_append m k v = AList.update k (values_get m k @ [v]) m"

text \<open>\<^verbatim>\<open>QueryEscape\<close>: letters, digits, minus, underscore, dot and tilde stay; a space
  becomes a plus sign; every other byte becomes a percent sign and two upper-case
  hexadecimal digits.\<close>

definition shouldEscape :: "char \<Rightarrow> bool" where
  "shouldEscape c = (\<not> (is_alpha c \<or> is_digit c \<or> c = CHR ''-'' \<or> c = CHR ''_'' \<or> c = CHR ''.'' \<or> c = CHR ''~''))"

definition upperhex :: "nat \<Rightarrow> char" where
  "upperhex n = ''0123456789ABCDEF'' ! n"

definition escape_byte :: "char \<Rightarrow> string" where
  "escape_byte c =
    (if shouldEscape c then
       (if c = CHR '' '' then ''+''
        else [CHR ''%'', upperhex (code_of c div 16), upperhex (code_of c mod 16)])
     else [c])"

definition QueryEscape :: "string \<Rightarrow> string" where
  "QueryEscape s = concat (map escape_byte s)"

definition unhex :: "char \<Rightarrow> nat" where
  "unhex c =
    (if is_digit c then code_of c - 48
     else if 97 \<le> code_of c \<and> code_of c \<le> 102 then code_of c - 97 + 10
     else if 65 \<le> code_of c \<and> code_of c \<le> 70 then code_of c - 65 + 10
     else 0)"

fun unescape_bytes :: "string \<Rightarrow> string" where
  "unescape_bytes [] = []"
| "unescape_bytes (c # cs) =
     (if c = CHR ''%'' then
        (case cs of a # b # rest \<Rightarrow> char_of (unhex a * 16 + unhex b) # unescape_bytes rest | _ \<Rightarrow> [])
      else if c = CHR ''+'' then CHR '' '' # unescape_bytes cs
      else c # unescape_bytes cs)"

text \<open>\<^verbatim>\<open>QueryUnescape\<close> fails on a percent sign that is not followed by two
  hexadecimal digits and decodes otherwise.\<close>

definition QueryUnescape :: "string \<Rightarrow> error + string" where
  "QueryUnescape s =
    (if valid_escapes s then Inr (unescape_bytes s) else Inl (OtherError ''invalid URL escape''))"

text \<open>\<^verbatim>\<open>parseQuery\<close> (as of Go 1.17): the pairs are separated by ampersands; a pair
  with a semicolon, an empty pair and a pair whose key or value does not decode are
  skipped. The error the loop collects is dropped by \<^verbatim>\<open>URL.Query\<close>, so it is not kept
  here.\<close>

function parseQuery :: "Values \<Rightarrow> string \<Rightarrow> Values" where
  "parseQuery m query =
    (if query = [] then m
     else
       let key = fst (Cut query (CHR ''&''));
           query = fst (snd (Cut query (CHR ''&'')))
       in if CHR '';'' \<in> set key then parseQuery m query
          else if key = [] then parseQuery m query
          else
            let v = fst (snd (Cut key (CHR ''=''))); key = fst (Cut key (CHR ''=''))
            in case QueryUnescape key of
                 Inl err1 \<Rightarrow> parseQuery m query
               | Inr key \<Rightarrow>
                   (case QueryUnescape v of
                      Inl err1 \<Rightarrow> parseQuery m query
                    | Inr v \<Rightarrow> parseQuery (values_append m key v) query))"
  by pat_completeness auto
termination
proof -
  have shorter: "length (fst (snd (Cut q c))) < length q" if "q \<noteq> []" for q :: string and c
  proof -
    have "length (dropWhile (\<lambda>x. x \<noteq> c) q) \<le> length q"
      by (rule length_dropWhile_le)
    moreover from that obtain n where "length q = Suc n"
      by (cases q) auto
    ultimately show ?thesis
      by (simp add: Cut_def)
  qed
  show ?thesis
    by (relation "measure (\<lambda>(m, query). length query)") (auto simp: shorter)
qed

declare parseQuery.simps [simp del]

definition url_Query :: "URL \<Rightarrow> Values" where
  "url_Query u = parseQuery [] (RawQuery u)"

text \<open>\<^verbatim>\<open>Values.Encode\<close>: the keys in sorted order, each value of a key written as
  \<^verbatim>\<open>key=value\<close> in escaped form, an ampersand before every pair but the first.\<close>

definition write_pair :: "string \<Rightarrow> string \<times> string \<Rightarrow> string" where
  "write_pair buf kv =
    (if buf \<noteq> [] then buf @ ''&'' else buf) @ QueryEscape (fst kv) @ ''='' @ QueryEscape (snd kv)"

definition values_Encode :: "Values \<Rightarrow> string" where
  "values_Encode m =
    foldl write_pair [] (concat (map (\<lambda>k. map (\<lambda>v. (k, v)) (values_get m k)) (sort (map fst m))))"

subsection \<open>Upload operations\<close>

definition initiateUpload :: "'s Registry \<Rightarrow> string \<Rightarrow> 's world \<Rightarrow> (error + URL) \<times> 's world" where
  "initiateUpload registry repository w =
    (let initiateUrl = registry_url registry (''/v2/'' @ repository @ ''/blobs/uploads/'');
         (res, w) = Client_Post registry initiateUrl ''application/octet-stream'' [] w
     in case res of
          Fail err \<Rightarrow> (Inl err, defer_close res w)
        | RespFail resp err \<Rightarrow> (Inl err, defer_close res w)
        | Resp resp \<Rightarrow>
            let location = Header_Get (Header resp) ''Location''
            in (case url_Parse location of
                  Inl err \<Rightarrow> (Inl err, defer_close res w)
                | Inr locationUrl \<Rightarrow> (Inr locationUrl, defer_close res w)))"

text \<open>
  \<^verbatim>\<open>UploadBlob\<close> returns the Go \<^verbatim>\<open>error\<close>, \<open>None\<close> for \<^verbatim>\<open>nil\<close>. The content is
  the bytes the reader yields; the \<^verbatim>\<open>getBody\<close> argument only installs a factory the
  transport may call to read them again, and the request carries the bytes themselves. The
  reader is one whose length \<^verbatim>\<open>http.NewRequest\<close> records as the content length (a
  buffer or reader of the packages bytes and strings), as the one
  \<^verbatim>\<open>UploadBlobChunked\<close> passes is.
\<close>

definition UploadBlob :: "'s Registry \<Rightarrow> string \<Rightarrow> string \<Rightarrow> byte list \<Rightarrow> 's world \<Rightarrow> error option \<times> 's world" where
  "UploadBlob registry repository digest content w =
    (case initiateUpload registry repository w of
       (Inl err, w) \<Rightarrow> (Some err, w)
     | (Inr uploadUrl, w) \<Rightarrow>
         let q = url_Query uploadUrl;
             q = values_Set q ''digest'' digest;
             uploadUrl = uploadUrl\<lparr>RawQuery := values_Encode q\<rparr>
         in case http_NewRequest ''PUT'' (url_String uploadUrl) content of
              Inl err \<Rightarrow> (Some err, w)
            | Inr upload \<Rightarrow>
                let upload = Header_Set upload ''Content-Type'' ''application/octet-stream'';
                    (res, w) = Client_Do registry upload w
                in case res of
                     Fail err \<Rightarrow> (Some err, w)
                   | RespFail resp err \<Rightarrow> (Some err, w)
                   | Resp resp \<Rightarrow> (None, Body_Close (Body resp) w))"

text \<open>\<^verbatim>\<open>MountBlob\<close> posts the mount request without a body and returns the client's
  error.\<close>

definition MountBlob :: "'s Registry \<Rightarrow> string \<Rightarrow> string \<Rightarrow> string \<Rightarrow> 's world \<Rightarrow> error option \<times> 's world" where
  "MountBlob registry repository digest fromrepo w =
    (let url = registry_url registry
                 (''/v2/'' @ repository @ ''/blobs/uploads/?mount='' @ digest @ ''&from='' @ fromrepo);
         (res, w) = Client_Post registry url ''application/octet-stream'' [] w
     in (err_of res, defer_close res w))"

text \<open>
  Go's \<^verbatim>\<open>int\<close> values are integers here: every product and sum below is at most the
  length of the payload, so nothing wraps, and on numbers that are not negative Go's
  \<^verbatim>\<open>/\<close> and \<^verbatim>\<open>%\<close> are \<open>div\<close> and \<open>mod\<close>. A slice expression
  \<^verbatim>\<open>b[lo:hi]\<close> panics unless \<open>0 \<le> lo \<le> hi \<le> len b\<close>.
\<close>

definition chunkSize :: int where
  "chunkSize = 8096000"

definition slice :: "byte list \<Rightarrow> int \<Rightarrow> int \<Rightarrow> error + byte list" where
  "slice b lo hi =
    (if 0 \<le> lo \<and> lo \<le> hi \<and> hi \<le> int (length b) then Inr (take (nat (hi - lo)) (drop (nat lo) b))
     else Inl (Panic ''slice bounds out of range''))"

text \<open>The loop \<^verbatim>\<open>for ch := 0; ch < chunk; ch++\<close>: it returns the error that ended it,
  or \<open>None\<close> when every partial write went through.\<close>

function chunk_loop :: "'s Registry \<Rightarrow> URL \<Rightarrow> byte list \<Rightarrow> int \<Rightarrow> int \<Rightarrow> 's world \<Rightarrow> error option \<times> 's world" where
  "chunk_loop registry uploadUrl contBytes chunk ch w =
    (if ch < chunk then
       let rangeStart = ch * chunkSize;
           rangeEnd = rangeStart + chunkSize
       in case slice contBytes rangeStart rangeEnd of
            Inl err \<Rightarrow> (Some err, w)
          | Inr content \<Rightarrow>
              (case http_NewRequest ''PATCH'' (url_String uploadUrl) content of
                 Inl err \<Rightarrow> (Some err, w)
               | Inr upload \<Rightarrow>
                   let upload = Header_Set upload ''Content-Type'' ''application/octet-stream'';
                       upload = Header_Set upload ''Content-Length'' (Itoa chunkSize);
                       contRange = Itoa rangeStart @ ''-'' @ Itoa (rangeEnd - 1);
                       upload = Header_Set upload ''Content-Range'' contRange
                   in case Client_Do registry upload w of
                        (Fail err, w) \<Rightarrow> (Some err, w)
                      | (RespFail resp err, w) \<Rightarrow> (Some err, w)
                      | (Resp resp, w) \<Rightarrow>
                          chunk_loop registry uploadUrl contBytes chunk (ch + 1) (Body_Close (Body resp) w))
     else (None, w))"
  by pat_completeness auto
termination
  by (relation "measure (\<lambda>(registry, uploadUrl, contBytes, chunk, ch, w). nat (chunk - ch))") auto

declare chunk_loop.simps [simp del]

definition UploadBlobChunked :: "'s Registry \<Rightarrow> string \<Rightarrow> string \<Rightarrow> byte list \<Rightarrow> 's world \<Rightarrow> error option \<times> 's world" where
  "UploadBlobChunked registry repository digest contBytes w =
    (let contLength = int (length contBytes)
     in if contLength \<le> chunkSize then UploadBlob registry repository digest contBytes w
        else
          case initiateUpload registry repository w of
            (Inl err, w) \<Rightarrow> (Some err, w)
          | (Inr uploadUrl, w) \<Rightarrow>
              let chunk = contLength div chunkSize;
                  lastChSize = contLength mod chunkSize
              in case chunk_loop registry uploadUrl contBytes chunk 0 w of
                   (Some err, w) \<Rightarrow> (Some err, w)
                 | (None, w) \<Rightarrow>
                     let q = url_Query uploadUrl;
                         q = values_Set q ''digest'' digest;
                         uploadUrl = uploadUrl\<lparr>RawQuery := values_Encode q\<rparr>;
                         rangeStart = chunk * chunkSize;
                         rangeEnd = contLength
                     in case slice contBytes rangeStart rangeEnd of
                          Inl err \<Rightarrow> (Some err, w)
                        | Inr content \<Rightarrow>
                            (case http_NewRequest ''PUT'' (url_String uploadUrl) content of
                               Inl err \<Rightarrow> (Some err, w)
                             | Inr upload \<Rightarrow>
                                 let upload = Header_Set upload ''Content-Type'' ''application/octet-stream'';
                                     upload = Header_Set upload ''Content-Length'' (Itoa lastChSize);
                                     contRange = Itoa rangeStart @ ''-'' @ Itoa (rangeEnd - 1);
                                     upload = Header_Set upload ''Content-Range'' contRange;
                                     (res, w) = Client_Do registry upload w
                                 in case res of
                                      Fail err \<Rightarrow> (Some err, w)
                                    | RespFail resp err \<Rightarrow> (Some err, w)
                                    | Resp resp \<Rightarrow> (None, Body_Close (Body resp) w)))"

subsection \<open>The requests of an upload, written out\<close>

text \<open>
  The requests that the upload operations build, as values: the location with the digest
  set as a query parameter, the partial write of round \<open>ch\<close>, the finalizing write of
  a chunked upload, the single write of a small upload and the request that opens the
  session. The section on unfolding shows that the operations send exactly these.
\<close>

definition partial_write :: "URL \<Rightarrow> byte list \<Rightarrow> int \<Rightarrow> request" where
  "partial_write uploadUrl contBytes ch =
    \<lparr>Method = ''PATCH'', Url = url_String uploadUrl,
     ReqHeader = [(''Content-Type'', [''application/octet-stream'']),
                  (''Content-Length'', [Itoa chunkSize]),
                  (''Content-Range'', [Itoa (ch * chunkSize) @ ''-'' @ Itoa (ch * chunkSize + chunkSize - 1)])],
     ReqContentLength = chunkSize,
     ReqBody = take (nat chunkSize) (drop (nat (ch * chunkSize)) contBytes)\<rparr>"

definition with_digest :: "URL \<Rightarrow> string \<Rightarrow> URL" where
  "with_digest uploadUrl digest =
     uploadUrl\<lparr>RawQuery := values_Encode (values_Set (url_Query uploadUrl) ''digest'' digest)\<rparr>"

definition final_write :: "URL \<Rightarrow> string \<Rightarrow> byte list \<Rightarrow> request" where
  "final_write uploadUrl digest contBytes =
    \<lparr>Method = ''PUT'', Url = url_String (with_digest uploadUrl digest),
     ReqHeader = [(''Content-Type'', [''application/octet-stream'']),
                  (''Content-Length'', [Itoa (int (length contBytes) mod chunkSize)]),
                  (''Content-Range'', [Itoa (int (length contBytes) div chunkSize * chunkSize) @ ''-''
                                        @ Itoa (int (length contBytes) - 1)])],
     ReqContentLength = int (length contBytes) mod chunkSize,
     ReqBody = drop (nat (int (length contBytes) div chunkSize * chunkSize)) contBytes\<rparr>"

definition single_write :: "URL \<Rightarrow> string \<Rightarrow> byte list \<Rightarrow> request" where
  "single_write uploadUrl digest content =
    \<lparr>Method = ''PUT'', Url = url_String (with_digest uploadUrl digest),
     ReqHeader = [(''Content-Type'', [''application/octet-stream''])],
     ReqContentLength = int (length content),
     ReqBody = content\<rparr>"

definition initiate_request :: "'s Registry \<Rightarrow> string \<Rightarrow> request" where
  "initiate_request registry repository =
    \<lparr>Method = ''POST'', Url = registry_url registry (''/v2/'' @ repository @ ''/blobs/uploads/''),
     ReqHeader = [(''Content-Type'', [''application/octet-stream''])],
     ReqContentLength = 0, ReqBody = []\<rparr>"

subsection \<open>Example peers\<close>

text \<open>A peer that gives the same answer to every request, and the world before any
  exchange.\<close>

definition answering :: "result \<Rightarrow> unit Registry" where
  "answering res = \<lparr>URL = ''https://registry.example'', Client = (\<lambda>s req. (res, s))\<rparr>"

definition world0 :: "unit world" where
  "world0 = \<lparr>peer = (), sent = [], closed = []\<rparr>"

definition response_with :: "int \<Rightarrow> response" where
  "response_with code = \<lparr>StatusCode = code, Header = [], ContentLength = 3,
     Body = \<lparr>body_handle = 0, body_bytes = [1, 2, 3], body_err = None\<rparr>\<rparr>"

text \<open>
  A session location a registry could return, and peers for the upload operations: one that
  accepts every request with status 202 and that location; one that answers every write
  with status 500 but reports no error; one whose client fails on every write; and one
  that hands out a new location with every response.
\<close>

definition created :: "string \<Rightarrow> response" where
  "created location = \<lparr>StatusCode = 202, Header = [(''Location'', [location])], ContentLength = 0,
     Body = \<lparr>body_handle = 0, body_bytes = [], body_err = None\<rparr>\<rparr>"

text \<open>The session location, parsed.\<close>

definition session_url :: URL where
  "session_url = \<lparr>Scheme = [], Opaque = [], Host = [], Path = ''/v2/library/alpine/blobs/uploads/7f3a'',
     OmitHost = False, ForceQuery = False, RawQuery = ''_state=abc'', Fragment = []\<rparr>"

definition accepting :: "unit Registry" where
  "accepting = answering (Resp (created ''/v2/library/alpine/blobs/uploads/7f3a?_state=abc''))"

definition lenient :: "unit Registry" where
  "lenient = \<lparr>URL = ''https://registry.example'',
     Client = (\<lambda>s req. (if Method req = ''POST''
                            then Resp (created ''/v2/library/alpine/blobs/uploads/7f3a?_state=abc'')
                            else Resp (response_with 500), s))\<rparr>"

definition refusing :: "unit Registry" where
  "refusing = \<lparr>URL = ''https://registry.example'',
     Client = (\<lambda>s req. (if Method req = ''POST''
                            then Resp (created ''/v2/library/alpine/blobs/uploads/7f3a?_state=abc'')
                            else Fail (UrlError ''Patch'' (Url req) (HttpStatusError 500)), s))\<rparr>"

definition rotating :: "nat Registry" where
  "rotating = \<lparr>URL = ''https://registry.example'',
     Client = (\<lambda>n req. (Resp (created (''/v2/library/alpine/blobs/uploads/'' @ Itoa (int n))), Suc n))\<rparr>"

definition world_rotating :: "nat world" where
  "world_rotating = \<lparr>peer = 0, sent = [], closed = []\<rparr>"

text \<open>What a recorded exchange shows of its response: the \<^verbatim>\<open>Location\<close> header and the
  status code.\<close>

definition location_of :: "result \<Rightarrow> string" where
  "location_of res = (case resp_of res of Some resp \<Rightarrow> Header_Get (Header resp) ''Location'' | None \<Rightarrow> [])"

definition status_of :: "result \<Rightarrow> int" where
  "status_of res = (case resp_of res of Some resp \<Rightarrow> StatusCode resp | None \<Rightarrow> 0)"

text \<open>The location the rotating peer returns first, parsed.\<close>

definition first_url :: URL where
  "first_url = \<lparr>Scheme = [], Opaque = [], Host = [], Path = ''/v2/library/alpine/blobs/uploads/0'',
     OmitHost = False, ForceQuery = False, RawQuery = [], Fragment = []\<rparr>"

section \<open>Properties\<close>

subsection \<open>How the operations unfold\<close>

lemma chunkSize_pos: "0 < chunkSize"
  by (simp add: chunkSize_def)

lemma Client_Do_sent:
  "Client_Do registry req w = (res, w1) \<Longrightarrow> sent w1 = sent w @ [(req, res)]"
  by (auto simp: Client_Do_def Let_def split: prod.splits)

lemma Client_Do_closed:
  "Client_Do registry req w = (res, w1) \<Longrightarrow> closed w1 = closed w"
  by (auto simp: Client_Do_def Let_def split: prod.splits)

lemma Body_Close_sent [simp]: "sent (Body_Close b w) = sent w"
  by (simp add: Body_Close_def)

lemma chunk_loop_done:
  "\<not> ch < chunk \<Longrightarrow> chunk_loop registry uploadUrl contBytes chunk ch w = (None, w)"
  by (simp add: chunk_loop.simps)

lemma chunk_in_range:
  assumes "0 \<le> ch" "ch < chunk" "chunk * chunkSize \<le> int (length contBytes)"
  shows "ch * chunkSize + chunkSize \<le> int (length contBytes)" and "0 \<le> ch * chunkSize"
proof -
  from assms(2) have "ch + 1 \<le> chunk" by simp
  then have "(ch + 1) * chunkSize \<le> chunk * chunkSize"
    using chunkSize_pos by (intro mult_right_mono) simp_all
  with assms(3) show "ch * chunkSize + chunkSize \<le> int (length contBytes)"
    by (simp add: algebra_simps)
  from assms(1) chunkSize_pos show "0 \<le> ch * chunkSize" by simp
qed

lemma slice_chunk:
  assumes "0 \<le> ch" "ch < chunk" "chunk * chunkSize \<le> int (length contBytes)"
  shows "slice contBytes (ch * chunkSize) (ch * chunkSize + chunkSize)
           = Inr (take (nat chunkSize) (drop (nat (ch * chunkSize)) contBytes))"
    and "int (length (take (nat chunkSize) (drop (nat (ch * chunkSize)) contBytes))) = chunkSize"
  using chunk_in_range [OF assms] chunkSize_pos
  by (auto simp: slice_def)

lemma chunk_loop_step:
  assumes "0 \<le> ch" "ch < chunk" "chunk * chunkSize \<le> int (length contBytes)"
  shows "chunk_loop registry uploadUrl contBytes chunk ch w =
     (case url_Parse (url_String uploadUrl) of
        Inl err \<Rightarrow> (Some err, w)
      | Inr u \<Rightarrow>
         (case Client_Do registry (partial_write uploadUrl contBytes ch) w of
            (Fail err, w1) \<Rightarrow> (Some err, w1)
          | (RespFail resp err, w1) \<Rightarrow> (Some err, w1)
          | (Resp resp, w1) \<Rightarrow>
              chunk_loop registry uploadUrl contBytes chunk (ch + 1) (Body_Close (Body resp) w1)))"
  using assms(2) slice_chunk [OF assms]
  by (subst chunk_loop.simps)
     (simp add: Let_def http_NewRequest_def Header_Set_def partial_write_def split: sum.splits)

lemma chunk_loop_trace:
  assumes "0 \<le> ch" "ch \<le> chunk" "chunk * chunkSize \<le> int (length bs)" "nat (chunk - ch) = n"
  shows "\<exists>xs. sent (snd (chunk_loop reg u bs chunk ch w)) = sent w @ xs
      \<and> length xs \<le> n
      \<and> (\<forall>i < length xs. fst (xs ! i) = partial_write u bs (ch + int i))
      \<and> (\<forall>i. Suc i < length xs \<longrightarrow> err_of (snd (xs ! i)) = None)
      \<and> (fst (chunk_loop reg u bs chunk ch w) = None \<longrightarrow>
           length xs = n \<and> (\<forall>i < length xs. err_of (snd (xs ! i)) = None))
      \<and> (\<forall>e. fst (chunk_loop reg u bs chunk ch w) = Some e \<longrightarrow>
           (xs = [] \<and> url_Parse (url_String u) = Inl e) \<or> (xs \<noteq> [] \<and> err_of (snd (last xs)) = Some e))"
  using assms
proof (induction n arbitrary: ch w)
  case 0
  then have "\<not> ch < chunk" by simp
  then show ?case by (simp add: chunk_loop_done)
next
  case (Suc n)
  then have lt: "ch < chunk" by simp
  note step = chunk_loop_step [OF Suc.prems(1) lt Suc.prems(3), of reg u w]
  show ?case
  proof (cases "url_Parse (url_String u)")
    case (Inl e)
    with step show ?thesis by simp
  next
    case (Inr u')
    obtain res w1 where do: "Client_Do reg (partial_write u bs ch) w = (res, w1)"
      by (cases "Client_Do reg (partial_write u bs ch) w")
    note s1 = Client_Do_sent [OF do]
    show ?thesis
    proof (cases res)
      case (Fail e)
      with step Inr do s1 show ?thesis
        by (intro exI [of _ "[(partial_write u bs ch, res)]"]) simp
    next
      case (RespFail r e)
      with step Inr do s1 show ?thesis
        by (intro exI [of _ "[(partial_write u bs ch, res)]"]) simp
    next
      case (Resp r)
      let ?w2 = "Body_Close (Body r) w1"
      from step Inr do Resp
      have eq: "chunk_loop reg u bs chunk ch w = chunk_loop reg u bs chunk (ch + 1) ?w2"
        by simp
      from Suc.prems lt have pre: "0 \<le> ch + 1" "ch + 1 \<le> chunk" "nat (chunk - (ch + 1)) = n"
        by simp_all
      from Suc.IH [OF pre(1) pre(2) Suc.prems(3) pre(3), of ?w2]
      obtain xs where xs0:
        "sent (snd (chunk_loop reg u bs chunk (ch + 1) ?w2)) = sent ?w2 @ xs
         \<and> length xs \<le> n
         \<and> (\<forall>i < length xs. fst (xs ! i) = partial_write u bs (ch + 1 + int i))
         \<and> (\<forall>i. Suc i < length xs \<longrightarrow> err_of (snd (xs ! i)) = None)
         \<and> (fst (chunk_loop reg u bs chunk (ch + 1) ?w2) = None \<longrightarrow>
             length xs = n \<and> (\<forall>i < length xs. err_of (snd (xs ! i)) = None))
         \<and> (\<forall>e. fst (chunk_loop reg u bs chunk (ch + 1) ?w2) = Some e \<longrightarrow>
             (xs = [] \<and> url_Parse (url_String u) = Inl e) \<or> (xs \<noteq> [] \<and> err_of (snd (last xs)) = Some e))"
        ..
      note xs = xs0 [THEN conjunct1] xs0 [THEN conjunct2, THEN conjunct1]
        xs0 [THEN conjunct2, THEN conjunct2, THEN conjunct1]
        xs0 [THEN conjunct2, THEN conjunct2, THEN conjunct2, THEN conjunct1]
        xs0 [THEN conjunct2, THEN conjunct2, THEN conjunct2, THEN conjunct2, THEN conjunct1]
        xs0 [THEN conjunct2, THEN conjunct2, THEN conjunct2, THEN conjunct2, THEN conjunct2]
      let ?ys = "(partial_write u bs ch, res) # xs"
      have a: "sent (snd (chunk_loop reg u bs chunk ch w)) = sent w @ ?ys"
        using eq xs(1) s1 by simp
      have b: "length ?ys \<le> Suc n" using xs(2) by simp
      have c: "\<forall>i < length ?ys. fst (?ys ! i) = partial_write u bs (ch + int i)"
      proof (intro allI impI)
        fix i assume "i < length ?ys"
        then show "fst (?ys ! i) = partial_write u bs (ch + int i)"
          using xs(3) by (cases i) (simp_all add: algebra_simps)
      qed
      have d: "\<forall>i. Suc i < length ?ys \<longrightarrow> err_of (snd (?ys ! i)) = None"
      proof (intro allI impI)
        fix i assume "Suc i < length ?ys"
        then show "err_of (snd (?ys ! i)) = None"
          using xs(4) Resp by (cases i) simp_all
      qed
      have e: "fst (chunk_loop reg u bs chunk ch w) = None \<longrightarrow>
           length ?ys = Suc n \<and> (\<forall>i < length ?ys. err_of (snd (?ys ! i)) = None)"
      proof (intro impI conjI allI)
        assume n: "fst (chunk_loop reg u bs chunk ch w) = None"
        with eq xs(5) show "length ?ys = Suc n" by simp
        fix i assume "i < length ?ys"
        with n eq xs(5) Resp show "err_of (snd (?ys ! i)) = None"
          by (cases i) simp_all
      qed
      have f: "\<forall>e. fst (chunk_loop reg u bs chunk ch w) = Some e \<longrightarrow>
           (?ys = [] \<and> url_Parse (url_String u) = Inl e) \<or> (?ys \<noteq> [] \<and> err_of (snd (last ?ys)) = Some e)"
        using eq xs(6) Inr by auto
      show ?thesis
        by (rule exI [of _ ?ys]) (intro conjI a b c d e f)
    qed
  qed
qed

lemma slice_last:
  assumes "chunkSize < int (length bs)"
  shows "slice bs (int (length bs) div chunkSize * chunkSize) (int (length bs))
           = Inr (drop (nat (int (length bs) div chunkSize * chunkSize)) bs)"
    and "int (length (drop (nat (int (length bs) div chunkSize * chunkSize)) bs)) = int (length bs) mod chunkSize"
proof -
  let ?L = "int (length bs)"
  have m: "?L - ?L div chunkSize * chunkSize = ?L mod chunkSize"
    by (simp add: minus_div_mult_eq_mod)
  have "0 \<le> ?L mod chunkSize"
    using chunkSize_pos by simp
  with m have le: "?L div chunkSize * chunkSize \<le> ?L"
    by linarith
  have "0 \<le> ?L div chunkSize"
    using chunkSize_pos by (simp add: pos_imp_zdiv_nonneg_iff)
  then have ge: "0 \<le> ?L div chunkSize * chunkSize"
    using chunkSize_pos by simp
  from le ge show "slice bs (?L div chunkSize * chunkSize) ?L = Inr (drop (nat (?L div chunkSize * chunkSize)) bs)"
    by (simp add: slice_def)
  from le ge m show "int (length (drop (nat (?L div chunkSize * chunkSize)) bs)) = ?L mod chunkSize"
    by simp
qed

lemma UploadBlobChunked_unfold:
  assumes "chunkSize < int (length bs)" and "initiateUpload reg repo w = (Inr u0, w1)"
  shows "UploadBlobChunked reg repo digest bs w =
    (case chunk_loop reg u0 bs (int (length bs) div chunkSize) 0 w1 of
       (Some err, w2) \<Rightarrow> (Some err, w2)
     | (None, w2) \<Rightarrow>
        (case url_Parse (url_String (with_digest u0 digest)) of
           Inl err \<Rightarrow> (Some err, w2)
         | Inr u \<Rightarrow>
            (case Client_Do reg (final_write u0 digest bs) w2 of
               (Fail err, w3) \<Rightarrow> (Some err, w3)
             | (RespFail resp err, w3) \<Rightarrow> (Some err, w3)
             | (Resp resp, w3) \<Rightarrow> (None, Body_Close (Body resp) w3))))"
  using assms slice_last [OF assms(1)]
  by (simp add: UploadBlobChunked_def Let_def http_NewRequest_def Header_Set_def final_write_def
      with_digest_def split: prod.splits option.splits sum.splits result.splits)

lemma UploadBlobChunked_initiate_failed:
  assumes "chunkSize < int (length bs)" and "initiateUpload reg repo w = (Inl e, w1)"
  shows "UploadBlobChunked reg repo digest bs w = (Some e, w1)"
  using assms by (simp add: UploadBlobChunked_def Let_def)

lemma UploadBlob_unfold:
  assumes "initiateUpload reg repo w = (Inr u0, w1)"
  shows "UploadBlob reg repo digest content w =
        (case url_Parse (url_String (with_digest u0 digest)) of
           Inl err \<Rightarrow> (Some err, w1)
         | Inr u \<Rightarrow>
            (case Client_Do reg (single_write u0 digest content) w1 of
               (Fail err, w3) \<Rightarrow> (Some err, w3)
             | (RespFail resp err, w3) \<Rightarrow> (Some err, w3)
             | (Resp resp, w3) \<Rightarrow> (None, Body_Close (Body resp) w3)))"
  using assms
  by (simp add: UploadBlob_def Let_def http_NewRequest_def Header_Set_def single_write_def
      with_digest_def split: prod.splits option.splits sum.splits result.splits)

lemma defer_close_sent [simp]: "sent (defer_close res w) = sent w"
  by (simp add: defer_close_def split: option.splits)

lemma initiateUpload_unfold:
  "initiateUpload reg repo w =
    (case url_Parse (registry_url reg (''/v2/'' @ repo @ ''/blobs/uploads/'')) of
       Inl err \<Rightarrow> (Inl err, w)
     | Inr u \<Rightarrow>
        (case Client_Do reg (initiate_request reg repo) w of
           (Fail err, w1) \<Rightarrow> (Inl err, w1)
         | (RespFail resp err, w1) \<Rightarrow> (Inl err, Body_Close (Body resp) w1)
         | (Resp resp, w1) \<Rightarrow>
            (case url_Parse (Header_Get (Header resp) ''Location'') of
               Inl err \<Rightarrow> (Inl err, Body_Close (Body resp) w1)
             | Inr locationUrl \<Rightarrow> (Inr locationUrl, Body_Close (Body resp) w1))))"
  by (simp add: initiateUpload_def Client_Post_def Let_def http_NewRequest_def Header_Set_def
      initiate_request_def defer_close_def split: prod.splits option.splits sum.splits result.splits)

lemma div_chunk_bounds:
  "0 \<le> int (length bs) div chunkSize" "int (length bs) div chunkSize * chunkSize \<le> int (length bs)"
proof -
  let ?L = "int (length bs)"
  show "0 \<le> ?L div chunkSize"
    using chunkSize_pos by (simp add: pos_imp_zdiv_nonneg_iff)
  have "?L - ?L div chunkSize * chunkSize = ?L mod chunkSize"
    by (simp add: minus_div_mult_eq_mod)
  moreover have "0 \<le> ?L mod chunkSize"
    using chunkSize_pos by simp
  ultimately show "?L div chunkSize * chunkSize \<le> ?L"
    by linarith
qed

lemma initiateUpload_sent:
  assumes "initiateUpload reg repo w = (Inr u0, w1)"
  shows "\<exists>resp. sent w1 = sent w @ [(initiate_request reg repo, Resp resp)]
           \<and> url_Parse (Header_Get (Header resp) ''Location'') = Inr u0"
proof -
  obtain res w0 where do: "Client_Do reg (initiate_request reg repo) w = (res, w0)"
    by (cases "Client_Do reg (initiate_request reg repo) w")
  from assms do Client_Do_sent [OF do] show ?thesis
    by (auto simp: initiateUpload_unfold split: sum.splits result.splits)
qed

lemma chunked_run_cases:
  assumes big: "chunkSize < int (length bs)" and init: "initiateUpload reg repo w = (Inr u0, w1)"
  obtains (aborted) xs e where
      "sent (snd (UploadBlobChunked reg repo digest bs w)) = sent w1 @ xs"
      "length xs \<le> nat (int (length bs) div chunkSize)"
      "\<forall>i < length xs. fst (xs ! i) = partial_write u0 bs (int i)"
      "\<forall>i. Suc i < length xs \<longrightarrow> err_of (snd (xs ! i)) = None"
      "fst (UploadBlobChunked reg repo digest bs w) = Some e"
      "(xs \<noteq> [] \<and> err_of (snd (last xs)) = Some e)
        \<or> ((\<forall>i < length xs. err_of (snd (xs ! i)) = None)
            \<and> (url_Parse (url_String u0) = Inl e \<or> url_Parse (url_String (with_digest u0 digest)) = Inl e))"
  | (finished) xs res where
      "sent (snd (UploadBlobChunked reg repo digest bs w)) = sent w1 @ xs @ [(final_write u0 digest bs, res)]"
      "length xs = nat (int (length bs) div chunkSize)"
      "\<forall>i < length xs. fst (xs ! i) = partial_write u0 bs (int i)"
      "\<forall>i < length xs. err_of (snd (xs ! i)) = None"
      "fst (UploadBlobChunked reg repo digest bs w) = err_of res"
proof -
  let ?n = "int (length bs) div chunkSize"
  let ?loop = "chunk_loop reg u0 bs ?n 0 w1"
  let ?up = "UploadBlobChunked reg repo digest bs w"
  note unf = UploadBlobChunked_unfold [OF big init, of digest]
  from chunk_loop_trace [where ch = 0 and chunk = ?n and bs = bs and n = "nat ?n" and reg = reg
      and u = u0 and w = w1] div_chunk_bounds [of bs]
  obtain xs where xs0:
    "sent (snd ?loop) = sent w1 @ xs
      \<and> length xs \<le> nat ?n
      \<and> (\<forall>i < length xs. fst (xs ! i) = partial_write u0 bs (0 + int i))
      \<and> (\<forall>i. Suc i < length xs \<longrightarrow> err_of (snd (xs ! i)) = None)
      \<and> (fst ?loop = None \<longrightarrow> length xs = nat ?n \<and> (\<forall>i < length xs. err_of (snd (xs ! i)) = None))
      \<and> (\<forall>e. fst ?loop = Some e \<longrightarrow>
           (xs = [] \<and> url_Parse (url_String u0) = Inl e) \<or> (xs \<noteq> [] \<and> err_of (snd (last xs)) = Some e))"
    by simp (erule exE)
  note xs = xs0 [THEN conjunct1] xs0 [THEN conjunct2, THEN conjunct1]
    xs0 [THEN conjunct2, THEN conjunct2, THEN conjunct1]
    xs0 [THEN conjunct2, THEN conjunct2, THEN conjunct2, THEN conjunct1]
    xs0 [THEN conjunct2, THEN conjunct2, THEN conjunct2, THEN conjunct2, THEN conjunct1]
    xs0 [THEN conjunct2, THEN conjunct2, THEN conjunct2, THEN conjunct2, THEN conjunct2]
  from xs(3) have parts: "\<forall>i < length xs. fst (xs ! i) = partial_write u0 bs (int i)"
    by simp
  obtain r w2 where loop: "?loop = (r, w2)"
    by (cases ?loop)
  show ?thesis
  proof (cases r)
    case (Some e)
    with loop unf have up: "?up = (Some e, w2)" by simp
    from xs(6) loop Some
    have "(xs = [] \<and> url_Parse (url_String u0) = Inl e) \<or> (xs \<noteq> [] \<and> err_of (snd (last xs)) = Some e)"
      by simp
    then have why: "(xs \<noteq> [] \<and> err_of (snd (last xs)) = Some e)
       \<or> ((\<forall>i < length xs. err_of (snd (xs ! i)) = None)
            \<and> (url_Parse (url_String u0) = Inl e \<or> url_Parse (url_String (with_digest u0 digest)) = Inl e))"
      by auto
    from up xs(1) loop have f1: "sent (snd ?up) = sent w1 @ xs" by simp
    from up have f5: "fst ?up = Some e" by simp
    show ?thesis
      by (rule aborted [OF f1 xs(2) parts xs(4) f5 why])
  next
    case None
    with xs(5) loop have full: "length xs = nat ?n" and ok: "\<forall>i < length xs. err_of (snd (xs ! i)) = None"
      by simp_all
    show ?thesis
    proof (cases "url_Parse (url_String (with_digest u0 digest))")
      case (Inl e)
      with loop unf None have up: "?up = (Some e, w2)" by simp
      from up xs(1) loop have f1: "sent (snd ?up) = sent w1 @ xs" by simp
      from up have f5: "fst ?up = Some e" by simp
      from ok Inl have why: "(xs \<noteq> [] \<and> err_of (snd (last xs)) = Some e)
       \<or> ((\<forall>i < length xs. err_of (snd (xs ! i)) = None)
            \<and> (url_Parse (url_String u0) = Inl e \<or> url_Parse (url_String (with_digest u0 digest)) = Inl e))"
        by simp
      show ?thesis
        by (rule aborted [OF f1 xs(2) parts xs(4) f5 why])
    next
      case (Inr u)
      obtain res w3 where do: "Client_Do reg (final_write u0 digest bs) w2 = (res, w3)"
        by (cases "Client_Do reg (final_write u0 digest bs) w2")
      from Client_Do_sent [OF do] xs(1) loop
      have s3: "sent w3 = sent w1 @ xs @ [(final_write u0 digest bs, res)]" by simp
      from loop unf None Inr do
      have up: "fst ?up = err_of res" "sent (snd ?up) = sent w3"
        by (cases res; simp)+
      from up(2) s3 have f1: "sent (snd ?up) = sent w1 @ xs @ [(final_write u0 digest bs, res)]"
        by simp
      show ?thesis
        by (rule finished [OF f1 full parts ok up(1)])
    qed
  qed
qed

lemma Itoa_chunkSize: "Itoa chunkSize = ''8096000''"
  unfolding chunkSize_def by code_simp

lemma nat_chunk_mult: "nat (int i * chunkSize) = i * 8096000" "nat chunkSize = 8096000"
  by (simp_all add: chunkSize_def nat_mult_distrib)

lemma nat_int_div_chunk: "nat (int a div 8096000) = a div 8096000"
  by (simp add: nat_div_distrib)

lemma partial_write_fields:
  "Method (partial_write u bs ch) = ''PATCH''"
  "Url (partial_write u bs ch) = url_String u"
  "ReqBody (partial_write u bs (int i)) = take 8096000 (drop (i * 8096000) bs)"
  "Header_Get (ReqHeader (partial_write u bs (int i))) ''Content-Range''
     = Itoa (int i * 8096000) @ ''-'' @ Itoa ((int i + 1) * 8096000 - 1)"
  "Header_Get (ReqHeader (partial_write u bs ch)) ''Content-Length'' = ''8096000''"
  "Header_Get (ReqHeader (partial_write u bs ch)) ''Content-Type'' = ''application/octet-stream''"
  "ReqContentLength (partial_write u bs ch) = 8096000"
  by (simp_all add: partial_write_def Header_Get_def Itoa_chunkSize nat_chunk_mult)
     (simp_all add: chunkSize_def algebra_simps)

lemma final_write_fields:
  "Method (final_write u d bs) = ''PUT''"
  "Url (final_write u d bs) = url_String (with_digest u d)"
  "ReqBody (final_write u d bs) = drop (nat (int (length bs) div 8096000) * 8096000) bs"
  "Header_Get (ReqHeader (final_write u d bs)) ''Content-Range''
     = Itoa (int (length bs) div 8096000 * 8096000) @ ''-'' @ Itoa (int (length bs) - 1)"
  "Header_Get (ReqHeader (final_write u d bs)) ''Content-Length'' = Itoa (int (length bs) mod 8096000)"
  "Header_Get (ReqHeader (final_write u d bs)) ''Content-Type'' = ''application/octet-stream''"
  "ReqContentLength (final_write u d bs) = int (length bs) mod 8096000"
  by (simp_all add: final_write_def Header_Get_def chunkSize_def nat_mult_distrib nat_int_div_chunk)

lemma initiateUpload_trace:
  assumes "initiateUpload reg repo w = (r, w1)"
  shows "sent w1 = sent w \<or> (\<exists>res. sent w1 = sent w @ [(initiate_request reg repo, res)]
           \<and> (case r of Inl e \<Rightarrow> err_of res = Some e \<or> err_of res = None | Inr u \<Rightarrow> err_of res = None))"
proof -
  obtain res w0 where do: "Client_Do reg (initiate_request reg repo) w = (res, w0)"
    by (cases "Client_Do reg (initiate_request reg repo) w")
  from assms do Client_Do_sent [OF do] show ?thesis
    by (cases res) (auto simp: initiateUpload_unfold split: sum.splits)
qed

lemma initiate_request_Method [simp]: "Method (initiate_request reg repo) = ''POST''"
  by (simp add: initiate_request_def)

subsection \<open>Query parameters: escaping and unescaping\<close>

lemma code_of_less: "code_of c < 256"
  by (simp add: code_of_def)

lemma char_of_code_of [simp]: "char_of (code_of c) = c"
  by (simp add: code_of_def)

lemma upperhex_cases:
  assumes "n < 16"
  shows "ishex (upperhex n) \<and> unhex (upperhex n) = n
       \<and> upperhex n \<noteq> CHR ''&'' \<and> upperhex n \<noteq> CHR '';'' \<and> upperhex n \<noteq> CHR ''=''"
proof -
  have "[0..<16] = [0, 1, 2, 3, 4, 5, 6, 7, 8, 9, 10, 11, 12, 13, 14, 15 :: nat]"
    by code_simp
  moreover from assms have "n \<in> set [0..<16]"
    by simp
  ultimately have "n \<in> {0, 1, 2, 3, 4, 5, 6, 7, 8, 9, 10, 11, 12, 13, 14, 15}"
    by simp
  then show ?thesis
    by (elim insertE emptyE) (simp_all add: upperhex_def ishex_def unhex_def is_digit_def code_of_def)
qed

lemma nibbles: "code_of c div 16 < 16" "code_of c mod 16 < 16"
  "code_of c div 16 * 16 + code_of c mod 16 = code_of c"
  using nat_of_char_less_256 [of c] by (simp_all add: code_of_def less_mult_imp_div_less)

lemma plain_byte:
  assumes "\<not> shouldEscape c"
  shows "c \<noteq> CHR ''%''" "c \<noteq> CHR ''+''" "c \<noteq> CHR ''&''" "c \<noteq> CHR '';''" "c \<noteq> CHR ''=''"
  using assms by (auto simp: shouldEscape_def is_alpha_def is_digit_def code_of_def)

lemma escape_byte_separators:
  "x \<in> set (escape_byte c) \<Longrightarrow> x \<noteq> CHR ''&'' \<and> x \<noteq> CHR '';'' \<and> x \<noteq> CHR ''=''"
  using upperhex_cases [OF nibbles(1), of c] upperhex_cases [OF nibbles(2), of c] plain_byte [of c]
  by (auto simp: escape_byte_def split: if_splits)

lemma QueryEscape_separators:
  "x \<in> set (QueryEscape s) \<Longrightarrow> x \<noteq> CHR ''&'' \<and> x \<noteq> CHR '';'' \<and> x \<noteq> CHR ''=''"
  by (auto simp: QueryEscape_def dest: escape_byte_separators)

lemma escape_byte_round_trip:
  "valid_escapes (escape_byte c @ rest) = valid_escapes rest"
  "unescape_bytes (escape_byte c @ rest) = c # unescape_bytes rest"
  using upperhex_cases [OF nibbles(1), of c] upperhex_cases [OF nibbles(2), of c] plain_byte [of c]
    nibbles(3) [of c]
  by (auto simp: escape_byte_def)

lemma QueryEscape_round_trip_append:
  "valid_escapes (QueryEscape s @ rest) = valid_escapes rest"
  "unescape_bytes (QueryEscape s @ rest) = s @ unescape_bytes rest"
  by (induction s) (simp_all add: QueryEscape_def escape_byte_round_trip)

lemma QueryUnescape_QueryEscape: "QueryUnescape (QueryEscape s) = Inr s"
  using QueryEscape_round_trip_append [of s "[]"] by (simp add: QueryUnescape_def)

subsection \<open>Query parameters: parsing an encoded query\<close>

lemma Cut_found: "sep \<notin> set t \<Longrightarrow> Cut (t @ sep # rest) sep = (t, rest, True)"
  by (induction t) (auto simp: Cut_def)

lemma Cut_missing: "sep \<notin> set t \<Longrightarrow> Cut t sep = (t, [], False)"
  by (induction t) (auto simp: Cut_def)

lemma pair_text_separators:
  "CHR ''&'' \<notin> set (QueryEscape k @ CHR ''='' # QueryEscape v)"
  "CHR '';'' \<notin> set (QueryEscape k @ CHR ''='' # QueryEscape v)"
  "CHR ''='' \<notin> set (QueryEscape k)"
  using QueryEscape_separators [of _ k] QueryEscape_separators [of _ v] by auto

lemma parseQuery_Nil [simp]: "parseQuery m [] = m"
  by (simp add: parseQuery.simps)

lemma parseQuery_pair:
  "parseQuery m (QueryEscape k @ ''='' @ QueryEscape v) = values_append m k v"
proof -
  let ?t = "QueryEscape k @ CHR ''='' # QueryEscape v"
  have c1: "Cut ?t (CHR ''&'') = (?t, [], False)"
    by (rule Cut_missing) (rule pair_text_separators)
  have c2: "Cut ?t (CHR ''='') = (QueryEscape k, QueryEscape v, True)"
    by (rule Cut_found) (rule pair_text_separators)
  show ?thesis
    using pair_text_separators(2) [of k v]
    by (subst parseQuery.simps) (simp add: c1 c2 QueryUnescape_QueryEscape Let_def del: set_append)
qed

lemma parseQuery_pair_more:
  "parseQuery m (QueryEscape k @ ''='' @ QueryEscape v @ CHR ''&'' # rest) = parseQuery (values_append m k v) rest"
proof -
  let ?t = "QueryEscape k @ CHR ''='' # QueryEscape v"
  have "Cut (?t @ CHR ''&'' # rest) (CHR ''&'') = (?t, rest, True)"
    by (rule Cut_found) (rule pair_text_separators)
  then have c1: "Cut (QueryEscape k @ CHR ''='' # QueryEscape v @ CHR ''&'' # rest) (CHR ''&'') = (?t, rest, True)"
    by simp
  have c2: "Cut ?t (CHR ''='') = (QueryEscape k, QueryEscape v, True)"
    by (rule Cut_found) (rule pair_text_separators)
  show ?thesis
    using pair_text_separators(2) [of k v]
    by (subst parseQuery.simps) (simp add: c1 c2 QueryUnescape_QueryEscape Let_def del: set_append)
qed

lemma foldl_write_pair:
  "buf \<noteq> [] \<Longrightarrow> foldl write_pair buf ps
     = buf @ concat (map (\<lambda>p. CHR ''&'' # QueryEscape (fst p) @ ''='' @ QueryEscape (snd p)) ps)"
  by (induction ps arbitrary: buf) (simp_all add: write_pair_def)

lemma parseQuery_pairs:
  "parseQuery m (QueryEscape (fst p) @ ''='' @ QueryEscape (snd p)
      @ concat (map (\<lambda>p. CHR ''&'' # QueryEscape (fst p) @ ''='' @ QueryEscape (snd p)) ps))
   = foldl (\<lambda>m p. values_append m (fst p) (snd p)) m (p # ps)"
proof (induction ps arbitrary: m p)
  case Nil
  show ?case using parseQuery_pair [of m "fst p" "snd p"] by simp
next
  case (Cons q qs)
  show ?case
    using parseQuery_pair_more [of m "fst p" "snd p"] Cons.IH [of "values_append m (fst p) (snd p)" q]
    by simp
qed

lemma parseQuery_encoded:
  "parseQuery m (foldl write_pair [] ps) = foldl (\<lambda>m p. values_append m (fst p) (snd p)) m ps"
proof (cases ps)
  case Nil
  then show ?thesis by simp
next
  case (Cons p qs)
  have "foldl write_pair [] (p # qs) = foldl write_pair (QueryEscape (fst p) @ ''='' @ QueryEscape (snd p)) qs"
    by (simp add: write_pair_def)
  also have "\<dots> = (QueryEscape (fst p) @ ''='' @ QueryEscape (snd p))
      @ concat (map (\<lambda>p. CHR ''&'' # QueryEscape (fst p) @ ''='' @ QueryEscape (snd p)) qs)"
    by (rule foldl_write_pair) simp
  finally show ?thesis
    using parseQuery_pairs [of m p qs] Cons by simp
qed

subsection \<open>Query parameters: the values after encoding and parsing\<close>

lemma values_get_append:
  "values_get (values_append m k v) k' = (if k' = k then values_get m k @ [v] else values_get m k')"
  by (simp add: values_get_def values_append_def update_conv')

lemma values_get_Set:
  "values_get (values_Set m k v) k' = (if k' = k then [v] else values_get m k')"
  by (simp add: values_get_def values_Set_def update_conv')

lemma values_get_one_key:
  "values_get (foldl (\<lambda>m p. values_append m (fst p) (snd p)) m (map (Pair k) vs)) k'
     = (if k' = k then values_get m k @ vs else values_get m k')"
  by (induction vs arbitrary: m) (simp_all add: values_get_append)

lemma values_get_all_keys:
  "distinct ks \<Longrightarrow>
   values_get (foldl (\<lambda>m p. values_append m (fst p) (snd p)) m
      (concat (map (\<lambda>k. map (Pair k) (f k)) ks))) k'
     = values_get m k' @ (if k' \<in> set ks then f k' else [])"
  by (induction ks arbitrary: m) (auto simp: values_get_one_key)

lemma values_get_Nil [simp]: "values_get [] k = []"
  by (simp add: values_get_def)

lemma values_get_absent: "k \<notin> fst ` set m \<Longrightarrow> values_get m k = []"
  by (simp add: values_get_def map_of_eq_None_iff [THEN iffD2])

lemma parseQuery_Encode:
  assumes "distinct (map fst m)"
  shows "values_get (parseQuery [] (values_Encode m)) k = values_get m k"
proof -
  from assms have d: "distinct (sort (map fst m))" by simp
  show ?thesis
    using values_get_all_keys [OF d, of "[]" "values_get m" k] values_get_absent [of k m]
    by (auto simp: values_Encode_def parseQuery_encoded)
qed

lemma distinct_parseQuery:
  "distinct (map fst m) \<Longrightarrow> distinct (map fst (parseQuery m query))"
proof (induction m query rule: parseQuery.induct)
  case (1 m query)
  show ?case
    using 1
    by (subst parseQuery.simps)
       (auto simp: Let_def values_append_def distinct_update split: sum.splits)
qed

lemma distinct_url_Query: "distinct (map fst (url_Query u))"
  by (simp add: url_Query_def distinct_parseQuery)

lemma with_digest_query:
  "values_get (url_Query (with_digest u d)) k = (if k = ''digest'' then [d] else values_get (url_Query u) k)"
proof -
  have "distinct (map fst (values_Set (url_Query u) ''digest'' d))"
    by (simp add: values_Set_def distinct_update distinct_url_Query)
  from parseQuery_Encode [OF this, of k] show ?thesis
    by (simp add: with_digest_def url_Query_def values_get_Set)
qed

subsection \<open>Example runs\<close>

lemma parse_session: "url_Parse ''/v2/library/alpine/blobs/uploads/7f3a?_state=abc'' = Inr session_url"
  by code_simp

lemma parse_initiate: "url_Parse ''https://registry.example/v2/library/alpine/blobs/uploads/'' = Inr
  \<lparr>Scheme = ''https'', Opaque = [], Host = ''registry.example'', Path = ''/v2/library/alpine/blobs/uploads/'',
     OmitHost = False, ForceQuery = False, RawQuery = [], Fragment = []\<rparr>"
  by code_simp

lemma parse_string_session: "url_Parse (url_String session_url) = Inr session_url"
  by code_simp

lemma parse_session_digest:
  "url_Parse (url_String (with_digest session_url ''sha256:ab'')) = Inr (with_digest session_url ''sha256:ab'')"
  by code_simp

lemma Client_Do_eval:
  "Client_Do reg req w =
     (stamp (length (sent w)) (fst (Client reg (peer w) req)),
      w\<lparr>peer := snd (Client reg (peer w) req),
        sent := sent w @ [(req, stamp (length (sent w)) (fst (Client reg (peer w) req)))]\<rparr>)"
  by (simp add: Client_Do_def Let_def split: prod.splits)

lemmas fixed_peer_eval = initiateUpload_unfold registry_url_def parse_initiate parse_session Client_Do_eval
  created_def Header_Get_def world0_def Body_Close_def answering_def

lemma accepting_initiate:
  "initiateUpload accepting ''library/alpine'' world0 =
     (Inr session_url,
      \<lparr>peer = (), sent = [(initiate_request accepting ''library/alpine'',
          Resp (created ''/v2/library/alpine/blobs/uploads/7f3a?_state=abc''))], closed = [0]\<rparr>)"
  by (simp add: fixed_peer_eval accepting_def)

lemma lenient_initiate:
  "initiateUpload lenient ''library/alpine'' world0 =
     (Inr session_url,
      \<lparr>peer = (), sent = [(initiate_request lenient ''library/alpine'',
          Resp (created ''/v2/library/alpine/blobs/uploads/7f3a?_state=abc''))], closed = [0]\<rparr>)"
  by (simp add: fixed_peer_eval lenient_def)

lemma refusing_initiate:
  "initiateUpload refusing ''library/alpine'' world0 =
     (Inr session_url,
      \<lparr>peer = (), sent = [(initiate_request refusing ''library/alpine'',
          Resp (created ''/v2/library/alpine/blobs/uploads/7f3a?_state=abc''))], closed = [0]\<rparr>)"
  by (simp add: fixed_peer_eval refusing_def)

lemmas loop_eval = chunk_loop_step chunk_loop_done chunkSize_def parse_string_session parse_session_digest
  Client_Do_eval Body_Close_def

lemma Itoa_examples:
  "Itoa 0 = ''0''" "Itoa 1 = ''1''" "Itoa 2 = ''2''"
  "Itoa 8095999 = ''8095999''" "Itoa 8096000 = ''8096000''"
  "Itoa 16191999 = ''16191999''" "Itoa 16192000 = ''16192000''" "Itoa 19999999 = ''19999999''"
  by code_simp+

lemma string_session_digest:
  "url_String (with_digest session_url ''sha256:ab'')
     = ''/v2/library/alpine/blobs/uploads/7f3a?_state=abc&digest=sha256%3Aab''"
  by code_simp

lemma accepting_run_20M:
  "fst (UploadBlobChunked accepting ''library/alpine'' ''sha256:ab'' (replicate 20000000 0) world0) = None"
  "map fst (sent (snd (UploadBlobChunked accepting ''library/alpine'' ''sha256:ab'' (replicate 20000000 0) world0)))
     = [initiate_request accepting ''library/alpine'',
        partial_write session_url (replicate 20000000 0) 0,
        partial_write session_url (replicate 20000000 0) 1,
        final_write session_url ''sha256:ab'' (replicate 20000000 0)]"
  by (simp_all add: UploadBlobChunked_unfold [OF _ accepting_initiate] chunkSize_def)
     (simp_all add: loop_eval accepting_def answering_def created_def)

lemma accepting_run_exact:
  "map fst (sent (snd (UploadBlobChunked accepting ''library/alpine'' ''sha256:ab'' (replicate 16192000 0) world0)))
     = [initiate_request accepting ''library/alpine'',
        partial_write session_url (replicate 16192000 0) 0,
        partial_write session_url (replicate 16192000 0) 1,
        final_write session_url ''sha256:ab'' (replicate 16192000 0)]"
  by (simp_all add: UploadBlobChunked_unfold [OF _ accepting_initiate] chunkSize_def)
     (simp_all add: loop_eval accepting_def answering_def created_def)

lemma parse_first: "url_Parse ''/v2/library/alpine/blobs/uploads/0'' = Inr first_url"
  by code_simp

lemma parse_string_first: "url_Parse (url_String first_url) = Inr first_url"
  by code_simp

lemma string_first: "url_String first_url = ''/v2/library/alpine/blobs/uploads/0''"
  by code_simp

lemma string_first_digest:
  "url_String (with_digest first_url ''sha256:ab'') = ''/v2/library/alpine/blobs/uploads/0?digest=sha256%3Aab''"
  by code_simp

lemma parse_first_digest:
  "url_Parse ''/v2/library/alpine/blobs/uploads/0?digest=sha256%3Aab'' = Inr (with_digest first_url ''sha256:ab'')"
  by code_simp

lemma parse_session_digest_literal:
  "url_Parse ''/v2/library/alpine/blobs/uploads/7f3a?_state=abc&digest=sha256%3Aab''
     = Inr (with_digest session_url ''sha256:ab'')"
  by code_simp

lemma string_session: "url_String session_url = ''/v2/library/alpine/blobs/uploads/7f3a?_state=abc''"
  by code_simp

lemmas session_eval = chunk_loop_step chunk_loop_done chunkSize_def string_session parse_session
  string_session_digest parse_session_digest_literal Client_Do_eval Body_Close_def
  partial_write_fields final_write_fields

lemma rotating_initiate:
  "initiateUpload rotating ''library/alpine'' world_rotating =
     (Inr first_url,
      \<lparr>peer = 1, sent = [(initiate_request rotating ''library/alpine'',
          Resp (created ''/v2/library/alpine/blobs/uploads/0''))], closed = [0]\<rparr>)"
  by (simp add: initiateUpload_unfold registry_url_def parse_initiate parse_first Client_Do_eval
      created_def Header_Get_def world_rotating_def Body_Close_def rotating_def Itoa_examples)

lemma Itoa_3: "Itoa 3 = ''3''"
  by code_simp

lemmas rotating_eval = chunk_loop_step chunk_loop_done chunkSize_def string_first parse_first
  string_first_digest parse_first_digest Client_Do_eval Body_Close_def rotating_def created_def
  Itoa_examples Itoa_3

subsection \<open>Existence check\<close>

text \<open>
  C5, as the specification states it: \<^verbatim>\<open>HasBlob\<close> returns an error for every status that
  is neither success nor not-found. The code does not: a response that arrives without an
  error is answered with \<^verbatim>\<open>(StatusCode == 200, nil)\<close>, so a peer that answers
  304 gets \<^verbatim>\<open>(false, nil)\<close>.
\<close>

theorem HasBlob_third_status_counterexample:
  "fst (HasBlob (answering (Resp (response_with 304))) ''library/alpine'' ''sha256:ab'' world0)
     = (False, None)"
  by code_simp

text \<open>
  C5, amended: when the client returns a response and no error, \<^verbatim>\<open>HasBlob\<close> returns
  \<^verbatim>\<open>(true, nil)\<close> for status 200 and \<^verbatim>\<open>(false, nil)\<close> for every other status; when
  the client returns a \<^verbatim>\<open>*url.Error\<close> that wraps an \<^verbatim>\<open>*HttpStatusError\<close> with status
  404 it returns \<^verbatim>\<open>(false, nil)\<close>; for every other error it returns \<^verbatim>\<open>false\<close> and that
  error.
\<close>

theorem HasBlob_outcomes:
  assumes "Client_Head registry (registry_url registry (''/v2/'' @ repository @ ''/blobs/'' @ digest)) w = (res, w1)"
  shows "(\<forall>resp. res = Resp resp \<longrightarrow>
            fst (HasBlob registry repository digest w) = (StatusCode resp = 200, None))
       \<and> (\<forall>op u. err_of res = Some (UrlError op u (HttpStatusError 404)) \<longrightarrow>
            fst (HasBlob registry repository digest w) = (False, None))
       \<and> (\<forall>err. err_of res = Some err \<and> (\<forall>op u. err \<noteq> UrlError op u (HttpStatusError 404)) \<longrightarrow>
            fst (HasBlob registry repository digest w) = (False, Some err))"
  using assms
  by (cases res) (auto simp: HasBlob_def split: error.splits)

theorem HasBlob_outcomes_witness:
  "fst (HasBlob (answering (Resp (response_with 200))) ''library/alpine'' ''sha256:ab'' world0) = (True, None)
   \<and> fst (HasBlob (answering (Resp (response_with 404))) ''library/alpine'' ''sha256:ab'' world0) = (False, None)
   \<and> fst (HasBlob (answering (Fail (UrlError ''Head'' ''u'' (HttpStatusError 404)))) ''library/alpine'' ''sha256:ab'' world0)
       = (False, None)
   \<and> fst (HasBlob (answering (Fail (UrlError ''Head'' ''u'' (HttpStatusError 500)))) ''library/alpine'' ''sha256:ab'' world0)
       = (False, Some (UrlError ''Head'' ''u'' (HttpStatusError 500)))
   \<and> fst (HasBlob (answering (Fail (HttpStatusError 404))) ''library/alpine'' ''sha256:ab'' world0)
       = (False, Some (HttpStatusError 404))"
proof -
  have a: "Client_Head (answering res)
             (registry_url (answering res) (''/v2/'' @ ''library/alpine'' @ ''/blobs/'' @ ''sha256:ab'')) world0
           = (stamp 0 res, snd (Client_Head (answering res)
               (registry_url (answering res) (''/v2/'' @ ''library/alpine'' @ ''/blobs/'' @ ''sha256:ab'')) world0))" for res
    by code_simp
  show ?thesis
    using HasBlob_outcomes [OF a [of "Resp (response_with 200)"]]
      HasBlob_outcomes [OF a [of "Resp (response_with 404)"]]
      HasBlob_outcomes [OF a [of "Fail (UrlError ''Head'' ''u'' (HttpStatusError 404))"]]
      HasBlob_outcomes [OF a [of "Fail (UrlError ''Head'' ''u'' (HttpStatusError 500))"]]
      HasBlob_outcomes [OF a [of "Fail (HttpStatusError 404)"]]
    by (simp add: response_with_def)
qed

subsection \<open>Metadata probe\<close>

text \<open>
  C8: when the HEAD exchange succeeds, \<^verbatim>\<open>BlobMetadata\<close> returns the descriptor with the
  digest asked for and the response's declared content length as its size, and no error;
  when the exchange fails, it returns the empty descriptor and the client's error as it
  is, whatever the error (a wrapped not-found status included).
\<close>

theorem BlobMetadata_result:
  assumes "Client_Head registry (registry_url registry (''/v2/'' @ repository @ ''/blobs/'' @ digest)) w = (res, w1)"
  shows "(\<forall>resp. res = Resp resp \<longrightarrow>
            fst (BlobMetadata registry repository digest w) =
              (\<lparr>MediaType = [], Size = ContentLength resp, Digest = digest, URLs = []\<rparr>, None))
       \<and> (\<forall>err. err_of res = Some err \<longrightarrow>
            fst (BlobMetadata registry repository digest w) = (empty_Descriptor, Some err))"
  using assms
  by (cases res) (auto simp: BlobMetadata_def empty_Descriptor_def)

theorem BlobMetadata_result_witness:
  "fst (BlobMetadata (answering (Resp (response_with 200))) ''library/alpine'' ''sha256:ab'' world0)
     = (\<lparr>MediaType = [], Size = 3, Digest = ''sha256:ab'', URLs = []\<rparr>, None)
   \<and> fst (BlobMetadata (answering (Fail (UrlError ''Head'' ''u'' (HttpStatusError 404)))) ''library/alpine'' ''sha256:ab'' world0)
     = (\<lparr>MediaType = [], Size = 0, Digest = [], URLs = []\<rparr>, Some (UrlError ''Head'' ''u'' (HttpStatusError 404)))"
proof -
  have a: "Client_Head (answering res)
             (registry_url (answering res) (''/v2/'' @ ''library/alpine'' @ ''/blobs/'' @ ''sha256:ab'')) world0
           = (stamp 0 res, snd (Client_Head (answering res)
               (registry_url (answering res) (''/v2/'' @ ''library/alpine'' @ ''/blobs/'' @ ''sha256:ab'')) world0))" for res
    by code_simp
  show ?thesis
    using BlobMetadata_result [OF a [of "Resp (response_with 200)"]]
      BlobMetadata_result [OF a [of "Fail (UrlError ''Head'' ''u'' (HttpStatusError 404))"]]
    by (simp add: response_with_def empty_Descriptor_def)
qed

subsection \<open>Fetching the full content\<close>

text \<open>
  C7: whenever the GET exchange hands \<^verbatim>\<open>GetBlobContent\<close> a response, with or without an
  error and whether or not reading the body fails, the body of that response is closed
  when the call returns (and nothing else is closed); when there is no error and the body
  reads to its end, the call returns exactly the bytes of the body.
\<close>

theorem GetBlobContent_releases_stream:
  assumes "Client_Get registry (registry_url registry (''/v2/'' @ repository @ ''/blobs/'' @ digest)) w = (res, w1)"
  shows "(\<forall>resp. resp_of res = Some resp \<longrightarrow>
            closed (snd (GetBlobContent registry repository digest w)) = closed w1 @ [body_handle (Body resp)])
       \<and> (resp_of res = None \<longrightarrow> closed (snd (GetBlobContent registry repository digest w)) = closed w1)
       \<and> (\<forall>resp. res = Resp resp \<and> body_err (Body resp) = None \<longrightarrow>
            fst (GetBlobContent registry repository digest w) = Inr (body_bytes (Body resp)))
       \<and> (\<forall>err. err_of res = Some err \<longrightarrow> fst (GetBlobContent registry repository digest w) = Inl err)
       \<and> (\<forall>resp err. res = Resp resp \<and> body_err (Body resp) = Some err \<longrightarrow>
            fst (GetBlobContent registry repository digest w) = Inl err)"
  using assms
  by (cases res)
    (auto simp: GetBlobContent_def defer_close_def Body_Close_def ReadAll_def split: sum.splits option.splits)

theorem GetBlobContent_releases_stream_witness:
  "closed (snd (GetBlobContent (answering (Resp (response_with 200))) ''library/alpine'' ''sha256:ab'' world0)) = [0]
   \<and> fst (GetBlobContent (answering (Resp (response_with 200))) ''library/alpine'' ''sha256:ab'' world0) = Inr [1, 2, 3]
   \<and> closed (snd (GetBlobContent (answering (RespFail (response_with 302) (OtherError ''redirect''))) ''library/alpine'' ''sha256:ab'' world0)) = [0]
   \<and> fst (GetBlobContent (answering (RespFail (response_with 302) (OtherError ''redirect''))) ''library/alpine'' ''sha256:ab'' world0)
       = Inl (OtherError ''redirect'')"
proof -
  have a: "Client_Get (answering res)
             (registry_url (answering res) (''/v2/'' @ ''library/alpine'' @ ''/blobs/'' @ ''sha256:ab'')) world0
           = (stamp 0 res, \<lparr>peer = (), sent = [(\<lparr>Method = ''GET'',
                Url = ''https://registry.example/v2/library/alpine/blobs/sha256:ab'', ReqHeader = [],
                ReqContentLength = 0, ReqBody = []\<rparr>, stamp 0 res)], closed = []\<rparr>)" for res
    by code_simp
  show ?thesis
    using GetBlobContent_releases_stream [OF a [of "Resp (response_with 200)"]]
      GetBlobContent_releases_stream [OF a [of "RespFail (response_with 302) (OtherError ''redirect'')"]]
    by (simp add: response_with_def)
qed

subsection \<open>Chunked upload: the writes of a run that succeeds\<close>


lemma err_of_stamp: "err_of (stamp n res) = err_of res"
  by (cases res) simp_all

lemma Client_Do_result:
  "fst (Client_Do reg req w) = stamp (length (sent w)) (fst (Client reg (peer w) req))"
  by (simp add: Client_Do_def Let_def split: prod.splits)

lemma Client_Do_answered:
  assumes "err_of (fst (Client reg (peer w) req)) = None"
  obtains resp w1 where "Client_Do reg req w = (Resp resp, w1)"
proof -
  obtain res w1 where do: "Client_Do reg req w = (res, w1)"
    by (cases "Client_Do reg req w")
  with Client_Do_result [of reg req w] assms have "err_of res = None"
    by (simp add: err_of_stamp)
  then obtain resp where "res = Resp resp"
    by (cases res) simp_all
  with do that show ?thesis by simp
qed

lemma chunk_loop_no_error:
  assumes "0 \<le> ch" "ch \<le> chunk" "chunk * chunkSize \<le> int (length bs)" "nat (chunk - ch) = n"
    and "url_Parse (url_String u) = Inr u1"
    and "\<forall>s req. Method req = ''PATCH'' \<longrightarrow> err_of (fst (Client reg s req)) = None"
  shows "fst (chunk_loop reg u bs chunk ch w) = None"
  using assms(1,2,4)
proof (induction n arbitrary: ch w)
  case 0
  then have "\<not> ch < chunk" by simp
  then show ?case by (simp add: chunk_loop_done)
next
  case (Suc n)
  then have lt: "ch < chunk" by simp
  note step = chunk_loop_step [OF Suc.prems(1) lt assms(3), of reg u w]
  from assms(6) have "err_of (fst (Client reg (peer w) (partial_write u bs ch))) = None"
    by (simp add: partial_write_fields)
  then obtain resp w1 where do: "Client_Do reg (partial_write u bs ch) w = (Resp resp, w1)"
    by (rule Client_Do_answered)
  from Suc.prems lt have pre: "0 \<le> ch + 1" "ch + 1 \<le> chunk" "nat (chunk - (ch + 1)) = n"
    by simp_all
  from step assms(5) do Suc.IH [OF pre] show ?case
    by simp
qed


lemma chunked_final_write_sent:
  assumes big: "chunkSize < int (length bs)"
    and init: "initiateUpload reg repo w = (Inr u0, w1)"
    and p1: "url_Parse (url_String u0) = Inr u1"
    and p2: "url_Parse (url_String (with_digest u0 digest)) = Inr u2"
    and ok: "\<forall>s req. Method req = ''PATCH'' \<longrightarrow> err_of (fst (Client reg s req)) = None"
  shows "\<exists>xs res. sent (snd (UploadBlobChunked reg repo digest bs w))
            = sent w1 @ xs @ [(final_write u0 digest bs, res)]
         \<and> length xs = nat (int (length bs) div chunkSize)
         \<and> (\<forall>i < length xs. fst (xs ! i) = partial_write u0 bs (int i))"
proof -
  let ?n = "int (length bs) div chunkSize"
  let ?loop = "chunk_loop reg u0 bs ?n 0 w1"
  have none: "fst ?loop = None"
    using div_chunk_bounds [of bs] p1 ok
    by (intro chunk_loop_no_error [where n = "nat ?n"]) simp_all
  then obtain w2 where loop: "?loop = (None, w2)"
    by (cases ?loop) simp
  from chunk_loop_trace [where ch = 0 and chunk = ?n and bs = bs and n = "nat ?n" and reg = reg
      and u = u0 and w = w1] div_chunk_bounds [of bs]
  obtain xs where xs0:
    "sent (snd ?loop) = sent w1 @ xs
      \<and> length xs \<le> nat ?n
      \<and> (\<forall>i < length xs. fst (xs ! i) = partial_write u0 bs (0 + int i))
      \<and> (\<forall>i. Suc i < length xs \<longrightarrow> err_of (snd (xs ! i)) = None)
      \<and> (fst ?loop = None \<longrightarrow> length xs = nat ?n \<and> (\<forall>i < length xs. err_of (snd (xs ! i)) = None))
      \<and> (\<forall>e. fst ?loop = Some e \<longrightarrow>
           (xs = [] \<and> url_Parse (url_String u0) = Inl e) \<or> (xs \<noteq> [] \<and> err_of (snd (last xs)) = Some e))"
    by simp (erule exE)
  from xs0 loop have s2: "sent w2 = sent w1 @ xs" by simp
  from xs0 none have full: "length xs = nat ?n" by simp
  from xs0 have parts: "\<forall>i < length xs. fst (xs ! i) = partial_write u0 bs (int i)" by simp
  obtain res w3 where do: "Client_Do reg (final_write u0 digest bs) w2 = (res, w3)"
    by (cases "Client_Do reg (final_write u0 digest bs) w2")
  from Client_Do_sent [OF do] s2
  have s3: "sent w3 = sent w1 @ xs @ [(final_write u0 digest bs, res)]" by simp
  from UploadBlobChunked_unfold [OF big init, of digest] loop p2 do
  have "sent (snd (UploadBlobChunked reg repo digest bs w)) = sent w3"
    by (cases res) simp_all
  then have s: "sent (snd (UploadBlobChunked reg repo digest bs w))
      = sent w1 @ xs @ [(final_write u0 digest bs, res)]"
    using s3 by simp
  from s full parts show ?thesis
    by - (rule exI [of _ xs], rule exI [of _ res], (rule conjI, assumption)+, assumption)
qed

lemma accepting_answers: "err_of (fst (Client accepting s req)) = None"
  by (simp add: accepting_def answering_def)



subsection \<open>Chunked upload: a payload that is a multiple of the chunk size\<close>




subsection \<open>Chunked upload: the location the writes are sent to\<close>

text \<open>
  C1, as the specification states it: each write after the first goes to the location the
  preceding response gave. The code does not refresh the location. Against a peer that
  hands out a new location with every response, the requests of a 16,192,001-byte upload
  are listed with their method, their target and the \<^verbatim>\<open>Location\<close> of the response:
  the second PATCH and the PUT still go to the location of the POST's response.
\<close>

theorem chunked_location_refresh_counterexample:
  "map (\<lambda>x. (Method (fst x), Url (fst x), location_of (snd x)))
     (sent (snd (UploadBlobChunked rotating ''library/alpine'' ''sha256:ab''
        (replicate 16192001 0) world_rotating)))
   = [(''POST'', ''https://registry.example/v2/library/alpine/blobs/uploads/'',
         ''/v2/library/alpine/blobs/uploads/0''),
      (''PATCH'', ''/v2/library/alpine/blobs/uploads/0'', ''/v2/library/alpine/blobs/uploads/1''),
      (''PATCH'', ''/v2/library/alpine/blobs/uploads/0'', ''/v2/library/alpine/blobs/uploads/2''),
      (''PUT'', ''/v2/library/alpine/blobs/uploads/0?digest=sha256%3Aab'',
         ''/v2/library/alpine/blobs/uploads/3'')]"
  by (simp add: UploadBlobChunked_unfold [OF _ rotating_initiate] chunkSize_def)
     (simp add: rotating_eval location_of_def Header_Get_def partial_write_fields final_write_fields
        initiate_request_def registry_url_def)

text \<open>
  C1, amended: in a chunked upload every partial write is sent to the location that
  \<^verbatim>\<open>initiateUpload\<close> returned, and the finalizing write to that same location with the
  digest set as a query parameter; the responses to the partial writes are not read.
\<close>

theorem chunked_writes_target_initial_location:
  assumes "8096000 < length contBytes"
    and "initiateUpload registry repository w = (Inr u0, w1)"
    and "(req, res) \<in> set (drop (length (sent w1)) (sent (snd (UploadBlobChunked registry repository digest contBytes w))))"
  shows "(Method req = ''PATCH'' \<and> Url req = url_String u0)
       \<or> (Method req = ''PUT''
           \<and> Url req = url_String (u0\<lparr>RawQuery := values_Encode (values_Set (url_Query u0) ''digest'' digest)\<rparr>))"
proof -
  from assms(1) have big: "chunkSize < int (length contBytes)"
    by (simp add: chunkSize_def)
  let ?W = "snd (UploadBlobChunked registry repository digest contBytes w)"
  from big assms(2) show ?thesis
  proof (cases rule: chunked_run_cases [where digest = digest])
    case (aborted xs e)
    with assms(3) have "(req, res) \<in> set xs" by simp
    then obtain i where "i < length xs" "xs ! i = (req, res)"
      by (auto simp: in_set_conv_nth)
    with aborted(3) have "req = partial_write u0 contBytes (int i)"
      by (metis fst_conv)
    then show ?thesis by (simp add: partial_write_fields)
  next
    case (finished xs res')
    with assms(3) have "(req, res) \<in> set xs \<or> req = final_write u0 digest contBytes"
      by auto
    then show ?thesis
    proof
      assume "(req, res) \<in> set xs"
      then obtain i where "i < length xs" "xs ! i = (req, res)"
        by (auto simp: in_set_conv_nth)
      with finished(3) have "req = partial_write u0 contBytes (int i)"
        by (metis fst_conv)
      then show ?thesis by (simp add: partial_write_fields)
    next
      assume "req = final_write u0 digest contBytes"
      then show ?thesis by (simp add: final_write_fields with_digest_def)
    qed
  qed
qed

theorem chunked_writes_target_initial_location_witness:
  "Url (partial_write first_url (replicate 16192001 0) 1) = ''/v2/library/alpine/blobs/uploads/0''
   \<and> partial_write first_url (replicate 16192001 0) 1
        \<in> fst ` set (sent (snd (UploadBlobChunked rotating ''library/alpine'' ''sha256:ab''
              (replicate 16192001 0) world_rotating)))
   \<and> Url (final_write first_url ''sha256:ab'' (replicate 16192001 0))
        = ''/v2/library/alpine/blobs/uploads/0?digest=sha256%3Aab''
   \<and> final_write first_url ''sha256:ab'' (replicate 16192001 0)
        \<in> fst ` set (sent (snd (UploadBlobChunked rotating ''library/alpine'' ''sha256:ab''
              (replicate 16192001 0) world_rotating)))"
proof -
  let ?bs = "replicate 16192001 (0 :: byte)"
  let ?S = "sent (snd (UploadBlobChunked rotating ''library/alpine'' ''sha256:ab'' ?bs world_rotating))"
  let ?patch = "partial_write first_url ?bs 1"
  let ?put = "final_write first_url ''sha256:ab'' ?bs"
  let ?w1 = "snd (initiateUpload rotating ''library/alpine'' world_rotating)"
  have len: "8096000 < length ?bs" by simp
  have "\<exists>r0 r1 r2 r3. ?S = [(initiate_request rotating ''library/alpine'', r0),
      (partial_write first_url ?bs 0, r1), (?patch, r2), (?put, r3)]"
    by (simp add: UploadBlobChunked_unfold [OF _ rotating_initiate] chunkSize_def)
       (simp add: chunk_loop_step chunk_loop_done chunkSize_def parse_string_first
          parse_first_digest [folded string_first_digest] Client_Do_eval Body_Close_def rotating_def)
  then obtain r0 r1 r2 r3 where S: "?S = [(initiate_request rotating ''library/alpine'', r0),
      (partial_write first_url ?bs 0, r1), (?patch, r2), (?put, r3)]"
    by (elim exE)
  have l1: "length (sent ?w1) = 1"
    by (simp add: rotating_initiate)
  have m1: "(?patch, r2) \<in> set (drop (length (sent ?w1)) ?S)"
    and m2: "(?put, r3) \<in> set (drop (length (sent ?w1)) ?S)"
    unfolding l1 S by simp_all
  have in1: "?patch \<in> fst ` set ?S" and in2: "?put \<in> fst ` set ?S"
    unfolding S by simp_all
  have init: "initiateUpload rotating ''library/alpine'' world_rotating = (Inr first_url, ?w1)"
    by (simp add: rotating_initiate)
  have u1: "Url ?patch = ''/v2/library/alpine/blobs/uploads/0''"
    using chunked_writes_target_initial_location [OF len init m1]
    by (simp add: partial_write_fields string_first)
  have u2: "Url ?put = ''/v2/library/alpine/blobs/uploads/0?digest=sha256%3Aab''"
    using chunked_writes_target_initial_location [OF len init m2]
    by (simp add: final_write_fields string_first_digest)
  from u1 in1 u2 in2 show ?thesis
    by (intro conjI)
qed

subsection \<open>Chunked upload: failures\<close>

text \<open>
  C6, as the specification states it: a write that receives a non-success response aborts
  the upload. \<^verbatim>\<open>UploadBlobChunked\<close> looks at the error the client returns and never at
  the status code of a response. Against a peer whose client hands back status 500 for
  every write without an error, all writes are sent and the upload returns \<^verbatim>\<open>nil\<close>.
\<close>

theorem non_success_response_counterexample:
  "fst (UploadBlobChunked lenient ''library/alpine'' ''sha256:ab'' (replicate 16192001 0) world0) = None
   \<and> map (\<lambda>x. (Method (fst x), status_of (snd x), err_of (snd x)))
       (sent (snd (UploadBlobChunked lenient ''library/alpine'' ''sha256:ab'' (replicate 16192001 0) world0)))
     = [(''POST'', 202, None), (''PATCH'', 500, None), (''PATCH'', 500, None), (''PUT'', 500, None)]"
  by (simp_all add: UploadBlobChunked_unfold [OF _ lenient_initiate] chunkSize_def)
     (simp_all add: session_eval lenient_def created_def response_with_def status_of_def)

text \<open>
  C6, amended: in a chunked upload, when the client returns an error for a request (the
  POST that opens the session, a partial write or the finalizing write), that request is
  the last one sent, so nothing is retried and no further write is issued, and the upload
  returns exactly that error.
\<close>

theorem UploadBlobChunked_stops_at_first_error:
  assumes "8096000 < length contBytes"
    and "sent (snd (UploadBlobChunked registry repository digest contBytes w)) = sent w @ xs"
    and "i < length xs"
    and "err_of (snd (xs ! i)) = Some err"
  shows "Suc i = length xs \<and> fst (UploadBlobChunked registry repository digest contBytes w) = Some err"
proof -
  from assms(1) have big: "chunkSize < int (length contBytes)"
    by (simp add: chunkSize_def)
  let ?up = "UploadBlobChunked registry repository digest contBytes w"
  obtain r0 w1 where init: "initiateUpload registry repository w = (r0, w1)"
    by (cases "initiateUpload registry repository w")
  show ?thesis
  proof (cases r0)
    case (Inl e)
    with big init have up: "?up = (Some e, w1)"
      by (simp add: UploadBlobChunked_initiate_failed)
    from initiateUpload_trace [OF init] Inl up assms(2,3,4) show ?thesis
      by auto
  next
    case (Inr u0)
    from initiateUpload_trace [OF init] Inr initiateUpload_sent [OF init [unfolded Inr]]
    obtain res0 where s1: "sent w1 = sent w @ [(initiate_request registry repository, res0)]"
      and ok0: "err_of res0 = None"
      by auto
    from big init [unfolded Inr] show ?thesis
    proof (cases rule: chunked_run_cases [where digest = digest])
      case (aborted ys e)
      from aborted(1) s1 assms(2) have xs: "xs = (initiate_request registry repository, res0) # ys"
        by simp
      from assms(3,4) xs ok0 obtain j where j: "i = Suc j" "j < length ys" "err_of (snd (ys ! j)) = Some err"
        by (cases i) auto
      from aborted(4) j have "\<not> Suc j < length ys" by auto
      with j have last: "length ys = Suc j" by simp
      then have ne: "ys \<noteq> []" by auto
      with last have "last ys = ys ! j"
        by (simp add: last_conv_nth)
      with aborted(6) j ne have "e = err"
        by auto
      with aborted(5) xs j last show ?thesis by simp
    next
      case (finished ys res')
      from finished(1) s1 assms(2)
      have xs: "xs = (initiate_request registry repository, res0) # ys @ [(final_write u0 digest contBytes, res')]"
        by simp
      from assms(3,4) xs ok0 obtain j where j: "i = Suc j" "j < Suc (length ys)"
        "err_of (snd ((ys @ [(final_write u0 digest contBytes, res')]) ! j)) = Some err"
        by (cases i) auto
      from j(2,3) finished(4) have "j = length ys"
        by (cases "j < length ys") (auto simp: nth_append)
      with j xs finished(5) show ?thesis by simp
    qed
  qed
qed

theorem UploadBlobChunked_stops_at_first_error_witness:
  "length (sent (snd (UploadBlobChunked refusing ''library/alpine'' ''sha256:ab'' (replicate 16192001 0) world0))) = 2
   \<and> map (\<lambda>x. Method (fst x))
        (sent (snd (UploadBlobChunked refusing ''library/alpine'' ''sha256:ab'' (replicate 16192001 0) world0)))
       = [''POST'', ''PATCH'']
   \<and> fst (UploadBlobChunked refusing ''library/alpine'' ''sha256:ab'' (replicate 16192001 0) world0)
       = Some (UrlError ''Patch'' ''/v2/library/alpine/blobs/uploads/7f3a?_state=abc'' (HttpStatusError 500))"
proof -
  let ?bs = "replicate 16192001 (0 :: byte)"
  let ?up = "UploadBlobChunked refusing ''library/alpine'' ''sha256:ab'' ?bs world0"
  let ?e = "UrlError ''Patch'' ''/v2/library/alpine/blobs/uploads/7f3a?_state=abc'' (HttpStatusError 500)"
  have len: "8096000 < length ?bs" by simp
  have S: "sent (snd ?up) = [(initiate_request refusing ''library/alpine'',
        Resp (created ''/v2/library/alpine/blobs/uploads/7f3a?_state=abc'')),
       (partial_write session_url ?bs 0, Fail ?e)]"
    by (simp add: UploadBlobChunked_unfold [OF _ refusing_initiate] chunkSize_def)
       (simp add: session_eval refusing_def)
  have a: "sent (snd ?up) = sent world0 @ sent (snd ?up)"
    by (simp add: world0_def)
  have b: "1 < length (sent (snd ?up))" and c: "err_of (snd (sent (snd ?up) ! 1)) = Some ?e"
    by (simp_all add: S)
  from UploadBlobChunked_stops_at_first_error [OF len a b c] S show ?thesis
    by (simp add: partial_write_fields)
qed

subsection \<open>Small payloads\<close>

lemma with_digest_fields: "(with_digest u d)\<lparr>RawQuery := RawQuery u\<rparr> = u"
  by (simp add: with_digest_def)

lemma single_write_fields:
  "Method (single_write u d bs) = ''PUT''"
  "Url (single_write u d bs) = url_String (with_digest u d)"
  "ReqBody (single_write u d bs) = bs"
  by (simp_all add: single_write_def)

lemma UploadBlob_trace:
  assumes "initiateUpload reg repo w = (Inr u0, w1)"
  shows "sent (snd (UploadBlob reg repo digest content w)) = sent w1
       \<or> (\<exists>res. sent (snd (UploadBlob reg repo digest content w)) = sent w1 @ [(single_write u0 digest content, res)])"
proof -
  obtain res w3 where do: "Client_Do reg (single_write u0 digest content) w1 = (res, w3)"
    by (cases "Client_Do reg (single_write u0 digest content) w1")
  from Client_Do_sent [OF do] do show ?thesis
    by (cases res) (auto simp: UploadBlob_unfold [OF assms] split: sum.splits)
qed

text \<open>
  C3: for a payload of at most 8,096,000 bytes \<^verbatim>\<open>UploadBlobChunked\<close> sends no PATCH and
  at most one PUT. When the session is opened and the request can be built, the requests
  sent are exactly the POST that opens the session and one PUT; the PUT carries the whole
  payload as its body and goes to the session location with the digest set as a query
  parameter.
\<close>

theorem UploadBlobChunked_small_payload:
  assumes "length contBytes \<le> 8096000"
  shows "(\<forall>x \<in> set (drop (length (sent w)) (sent (snd (UploadBlobChunked registry repository digest contBytes w)))).
            Method (fst x) \<noteq> ''PATCH'')
       \<and> length (filter (\<lambda>x. Method (fst x) = ''PUT'')
            (drop (length (sent w)) (sent (snd (UploadBlobChunked registry repository digest contBytes w))))) \<le> 1
       \<and> (\<forall>u0 w1 u1.
            initiateUpload registry repository w = (Inr u0, w1)
            \<and> url_Parse (url_String (u0\<lparr>RawQuery := values_Encode (values_Set (url_Query u0) ''digest'' digest)\<rparr>)) = Inr u1
            \<longrightarrow> (\<exists>post resp res.
                  sent (snd (UploadBlobChunked registry repository digest contBytes w))
                    = sent w @ [(post, Resp resp),
                        (\<lparr>Method = ''PUT'',
                          Url = url_String (u0\<lparr>RawQuery := values_Encode (values_Set (url_Query u0) ''digest'' digest)\<rparr>),
                          ReqHeader = [(''Content-Type'', [''application/octet-stream''])],
                          ReqContentLength = int (length contBytes),
                          ReqBody = contBytes\<rparr>, res)]
                  \<and> Method post = ''POST'')
                \<and> values_get (url_Query (u0\<lparr>RawQuery := values_Encode (values_Set (url_Query u0) ''digest'' digest)\<rparr>))
                      ''digest'' = [digest])"
proof -
  let ?up = "UploadBlobChunked registry repository digest contBytes w"
  from assms have up: "?up = UploadBlob registry repository digest contBytes w"
    by (simp add: UploadBlobChunked_def chunkSize_def)
  obtain r0 w1 where init: "initiateUpload registry repository w = (r0, w1)"
    by (cases "initiateUpload registry repository w")
  have shape: "drop (length (sent w)) (sent (snd ?up)) = []
     \<or> (\<exists>res0. drop (length (sent w)) (sent (snd ?up)) = [(initiate_request registry repository, res0)])
     \<or> (\<exists>res0 res u0. drop (length (sent w)) (sent (snd ?up))
           = [(initiate_request registry repository, res0), (single_write u0 digest contBytes, res)])"
  proof (cases r0)
    case (Inl e)
    with init have "UploadBlob registry repository digest contBytes w = (Some e, w1)"
      by (simp add: UploadBlob_def)
    with initiateUpload_trace [OF init] up show ?thesis by auto
  next
    case (Inr u0)
    from initiateUpload_sent [OF init [unfolded Inr]] obtain resp where
      "sent w1 = sent w @ [(initiate_request registry repository, Resp resp)]" by auto
    with UploadBlob_trace [OF init [unfolded Inr], of digest contBytes] up show ?thesis
      by auto
  qed
  from shape have a: "\<forall>x \<in> set (drop (length (sent w)) (sent (snd ?up))). Method (fst x) \<noteq> ''PATCH''"
    by (auto simp: single_write_fields)
  from shape have b: "length (filter (\<lambda>x. Method (fst x) = ''PUT'') (drop (length (sent w)) (sent (snd ?up)))) \<le> 1"
    by (auto simp: single_write_fields)
  have c: "(\<exists>post resp res.
                  sent (snd ?up)
                    = sent w @ [(post, Resp resp),
                        (\<lparr>Method = ''PUT'',
                          Url = url_String (u0\<lparr>RawQuery := values_Encode (values_Set (url_Query u0) ''digest'' digest)\<rparr>),
                          ReqHeader = [(''Content-Type'', [''application/octet-stream''])],
                          ReqContentLength = int (length contBytes),
                          ReqBody = contBytes\<rparr>, res)]
                  \<and> Method post = ''POST'')
                \<and> values_get (url_Query (u0\<lparr>RawQuery := values_Encode (values_Set (url_Query u0) ''digest'' digest)\<rparr>))
                      ''digest'' = [digest]"
    if i: "initiateUpload registry repository w = (Inr u0, w1')"
      and p: "url_Parse (url_String (u0\<lparr>RawQuery := values_Encode (values_Set (url_Query u0) ''digest'' digest)\<rparr>)) = Inr u1"
    for u0 w1' u1
  proof -
    from initiateUpload_sent [OF i] obtain resp where
      s1: "sent w1' = sent w @ [(initiate_request registry repository, Resp resp)]" by auto
    obtain res w3 where do: "Client_Do registry (single_write u0 digest contBytes) w1' = (res, w3)"
      by (cases "Client_Do registry (single_write u0 digest contBytes) w1'")
    from p have p': "url_Parse (url_String (with_digest u0 digest)) = Inr u1"
      by (simp add: with_digest_def)
    from do p' Client_Do_sent [OF do] have "sent (snd (UploadBlob registry repository digest contBytes w))
        = sent w1' @ [(single_write u0 digest contBytes, res)]"
      by (cases res) (simp_all add: UploadBlob_unfold [OF i])
    with s1 up have "sent (snd ?up) = sent w @ [(initiate_request registry repository, Resp resp),
        (single_write u0 digest contBytes, res)]"
      by simp
    moreover have "values_get (url_Query (with_digest u0 digest)) ''digest'' = [digest]"
      by (simp add: with_digest_query)
    ultimately show ?thesis
      by (auto simp: single_write_def with_digest_def)
  qed
  from a b c show ?thesis by blast
qed

theorem UploadBlobChunked_small_payload_witness:
  "\<exists>post resp res.
     sent (snd (UploadBlobChunked accepting ''library/alpine'' ''sha256:ab'' [1, 2, 3] world0))
       = [(post, Resp resp),
          (\<lparr>Method = ''PUT'',
            Url = ''/v2/library/alpine/blobs/uploads/7f3a?_state=abc&digest=sha256%3Aab'',
            ReqHeader = [(''Content-Type'', [''application/octet-stream''])],
            ReqContentLength = 3,
            ReqBody = [1, 2, 3]\<rparr>, res)]
     \<and> Method post = ''POST''"
proof -
  have len: "length [1, 2, 3 :: byte] \<le> 8096000" by simp
  have init: "initiateUpload accepting ''library/alpine'' world0
      = (Inr session_url, snd (initiateUpload accepting ''library/alpine'' world0))"
    by (simp add: accepting_initiate)
  have build: "url_Parse (url_String (session_url\<lparr>RawQuery :=
        values_Encode (values_Set (url_Query session_url) ''digest'' ''sha256:ab'')\<rparr>))
      = Inr (with_digest session_url ''sha256:ab'')"
    using parse_session_digest by (simp add: with_digest_def)
  from UploadBlobChunked_small_payload [OF len, of world0 accepting "''library/alpine''" "''sha256:ab''",
      THEN conjunct2, THEN conjunct2, rule_format, OF conjI [OF init build], THEN conjunct1]
  show ?thesis
    by (simp add: world0_def string_session_digest [unfolded with_digest_def])
qed

subsection \<open>The digest parameter and the other query parameters\<close>

lemma session_state: "values_get (url_Query session_url) ''_state'' = [''abc'']"
  by code_simp

lemma UploadBlob_write_sent:
  assumes init: "initiateUpload reg repo w = (Inr u0, w1)"
    and p2: "url_Parse (url_String (with_digest u0 digest)) = Inr u2"
  shows "\<exists>res. sent (snd (UploadBlob reg repo digest content w))
           = sent w1 @ [(single_write u0 digest content, res)]"
proof -
  obtain res w3 where do: "Client_Do reg (single_write u0 digest content) w1 = (res, w3)"
    by (cases "Client_Do reg (single_write u0 digest content) w1")
  from do p2 Client_Do_sent [OF do]
  have "sent (snd (UploadBlob reg repo digest content w))
        = sent w1 @ [(single_write u0 digest content, res)]"
    by (cases res) (simp_all add: UploadBlob_unfold [OF init])
  then show ?thesis by (rule exI)
qed

text \<open>
  C10, as the specification states it: every query parameter of the location the peer
  returned is still there after the digest is attached. The code rebuilds the query from
  what \<^verbatim>\<open>URL.Query\<close> reads, and \<^verbatim>\<open>URL.Query\<close> skips a pair that contains a
  semicolon and a pair whose key or value has a bad percent escape. For the location
  \<^verbatim>\<open>/u?a=1;b=2&c=%zz&d=4\<close> the PUT of \<^verbatim>\<open>UploadBlob\<close> goes to
  \<^verbatim>\<open>/u?d=4&digest=sha256%3Aab\<close>: the parameters \<open>a\<close>, \<open>b\<close> and \<open>c\<close> are gone.
\<close>

theorem digest_parameter_drops_skipped_pairs:
  "map (\<lambda>x. (Method (fst x), Url (fst x)))
     (sent (snd (UploadBlob (answering (Resp (created ''/u?a=1;b=2&c=%zz&d=4'')))
        ''library/alpine'' ''sha256:ab'' [1, 2, 3] world0)))
   = [(''POST'', ''https://registry.example/v2/library/alpine/blobs/uploads/''),
      (''PUT'', ''/u?d=4&digest=sha256%3Aab'')]"
  by code_simp

text \<open>
  C10, amended: the PUT of \<^verbatim>\<open>UploadBlob\<close> and the finalizing PUT of
  \<^verbatim>\<open>UploadBlobChunked\<close> go to the session location with its query replaced by the
  encoding of the values \<^verbatim>\<open>URL.Query\<close> reads from it, with \<^verbatim>\<open>digest\<close> set. Parsed
  as a query, that location has the digest as the one value of the key \<^verbatim>\<open>digest\<close>,
  and under every other key exactly the values \<^verbatim>\<open>URL.Query\<close> reads from the peer's
  location; a pair that \<^verbatim>\<open>URL.Query\<close> skips is not carried over. The PUT is sent: by
  \<^verbatim>\<open>UploadBlob\<close> once the new location is accepted by \<^verbatim>\<open>http.NewRequest\<close>, by
  \<^verbatim>\<open>UploadBlobChunked\<close> once, in addition, the session location is accepted and the
  client answers every PATCH without an error.
\<close>

theorem digest_parameter_keeps_parsed_parameters:
  assumes "initiateUpload registry repository w = (Inr u0, w1)"
  shows "(\<forall>req res.
            (req, res) \<in> set (drop (length (sent w1)) (sent (snd (UploadBlob registry repository digest content w))))
            \<longrightarrow> Url req = url_String (u0\<lparr>RawQuery := values_Encode (values_Set (url_Query u0) ''digest'' digest)\<rparr>))
       \<and> (\<forall>req res.
            (req, res) \<in> set (drop (length (sent w1)) (sent (snd (UploadBlobChunked registry repository digest content w))))
            \<and> Method req = ''PUT''
            \<longrightarrow> Url req = url_String (u0\<lparr>RawQuery := values_Encode (values_Set (url_Query u0) ''digest'' digest)\<rparr>))
       \<and> (\<forall>u2. url_Parse (url_String (u0\<lparr>RawQuery := values_Encode (values_Set (url_Query u0) ''digest'' digest)\<rparr>)) = Inr u2
            \<longrightarrow> (\<exists>put res.
                  sent (snd (UploadBlob registry repository digest content w)) = sent w1 @ [(put, res)]
                \<and> Method put = ''PUT''
                \<and> Url put = url_String (u0\<lparr>RawQuery := values_Encode (values_Set (url_Query u0) ''digest'' digest)\<rparr>)))
       \<and> (\<forall>u1 u2. url_Parse (url_String u0) = Inr u1
            \<and> url_Parse (url_String (u0\<lparr>RawQuery := values_Encode (values_Set (url_Query u0) ''digest'' digest)\<rparr>)) = Inr u2
            \<and> (\<forall>s r. Method r = ''PATCH'' \<longrightarrow> err_of (fst (Client registry s r)) = None)
            \<longrightarrow> (\<exists>patches put res.
                  sent (snd (UploadBlobChunked registry repository digest content w)) = sent w1 @ patches @ [(put, res)]
                \<and> Method put = ''PUT''
                \<and> Url put = url_String (u0\<lparr>RawQuery := values_Encode (values_Set (url_Query u0) ''digest'' digest)\<rparr>)))
       \<and> values_get (url_Query (u0\<lparr>RawQuery := values_Encode (values_Set (url_Query u0) ''digest'' digest)\<rparr>))
            ''digest'' = [digest]
       \<and> (\<forall>k. k \<noteq> ''digest'' \<longrightarrow>
            values_get (url_Query (u0\<lparr>RawQuery := values_Encode (values_Set (url_Query u0) ''digest'' digest)\<rparr>)) k
              = values_get (url_Query u0) k)"
proof -
  let ?U = "u0\<lparr>RawQuery := values_Encode (values_Set (url_Query u0) ''digest'' digest)\<rparr>"
  let ?P = "\<lambda>req. Url req = url_String ?U"
  have U: "with_digest u0 digest = ?U" by (simp add: with_digest_def)
  have single: "?P req"
    if "(req, res) \<in> set (drop (length (sent w1)) (sent (snd (UploadBlob registry repository digest content w))))"
    for req res
  proof -
    from UploadBlob_trace [OF assms, of digest content] that
    have "req = single_write u0 digest content" by auto
    then show ?thesis by (simp add: single_write_fields U)
  qed
  have chunked: "?P req"
    if mem: "(req, res) \<in> set (drop (length (sent w1)) (sent (snd (UploadBlobChunked registry repository digest content w))))"
    and put: "Method req = ''PUT''"
    for req res
  proof (cases "int (length content) \<le> chunkSize")
    case True
    then have "UploadBlobChunked registry repository digest content w = UploadBlob registry repository digest content w"
      by (simp add: UploadBlobChunked_def)
    with mem show ?thesis by (auto intro: single)
  next
    case False
    then have big: "chunkSize < int (length content)" by simp
    from big assms show ?thesis
    proof (cases rule: chunked_run_cases [where digest = digest])
      case (aborted xs e)
      with mem have "(req, res) \<in> set xs" by simp
      then obtain i where "i < length xs" "xs ! i = (req, res)"
        by (auto simp: in_set_conv_nth)
      with aborted(3) have "req = partial_write u0 content (int i)"
        by (metis fst_conv)
      with put show ?thesis by (simp add: partial_write_fields)
    next
      case (finished xs res')
      with mem have "(req, res) \<in> set xs \<or> req = final_write u0 digest content"
        by auto
      then show ?thesis
      proof
        assume "(req, res) \<in> set xs"
        then obtain i where "i < length xs" "xs ! i = (req, res)"
          by (auto simp: in_set_conv_nth)
        with finished(3) have "req = partial_write u0 content (int i)"
          by (metis fst_conv)
        with put show ?thesis by (simp add: partial_write_fields)
      next
        assume "req = final_write u0 digest content"
        then show ?thesis by (simp add: final_write_fields U)
      qed
    qed
  qed
  have q1: "values_get (url_Query ?U) ''digest'' = [digest]"
    using with_digest_query [of u0 digest] by (simp add: U)
  have q2: "\<forall>k. k \<noteq> ''digest'' \<longrightarrow> values_get (url_Query ?U) k = values_get (url_Query u0) k"
    using with_digest_query [of u0 digest] by (simp add: U)
  have s: "\<forall>req res.
            (req, res) \<in> set (drop (length (sent w1)) (sent (snd (UploadBlob registry repository digest content w))))
            \<longrightarrow> ?P req"
    using single by blast
  have c: "\<forall>req res.
            (req, res) \<in> set (drop (length (sent w1)) (sent (snd (UploadBlobChunked registry repository digest content w))))
            \<and> Method req = ''PUT'' \<longrightarrow> ?P req"
    using chunked by blast
  have b1: "\<exists>put res.
        sent (snd (UploadBlob registry repository digest content w)) = sent w1 @ [(put, res)]
      \<and> Method put = ''PUT'' \<and> Url put = url_String ?U"
    if "url_Parse (url_String ?U) = Inr u2" for u2
  proof -
    from that have "url_Parse (url_String (with_digest u0 digest)) = Inr u2" by (simp add: U)
    from UploadBlob_write_sent [OF assms this, of content] obtain res where
      "sent (snd (UploadBlob registry repository digest content w))
         = sent w1 @ [(single_write u0 digest content, res)]" by (elim exE)
    then have "sent (snd (UploadBlob registry repository digest content w))
         = sent w1 @ [(single_write u0 digest content, res)]
      \<and> Method (single_write u0 digest content) = ''PUT''
      \<and> Url (single_write u0 digest content) = url_String ?U"
      by (simp add: single_write_fields U)
    then show ?thesis
      by - (rule exI [of _ "single_write u0 digest content"], rule exI [of _ res])
  qed
  have b2: "\<exists>patches put res.
        sent (snd (UploadBlobChunked registry repository digest content w)) = sent w1 @ patches @ [(put, res)]
      \<and> Method put = ''PUT'' \<and> Url put = url_String ?U"
    if p1: "url_Parse (url_String u0) = Inr u1"
      and p2: "url_Parse (url_String ?U) = Inr u2"
      and ok: "\<forall>s r. Method r = ''PATCH'' \<longrightarrow> err_of (fst (Client registry s r)) = None"
    for u1 u2
  proof (cases "int (length content) \<le> chunkSize")
    case True
    then have "UploadBlobChunked registry repository digest content w = UploadBlob registry repository digest content w"
      by (simp add: UploadBlobChunked_def)
    with b1 [OF p2] obtain put res where
      "sent (snd (UploadBlobChunked registry repository digest content w)) = sent w1 @ [] @ [(put, res)]
      \<and> Method put = ''PUT'' \<and> Url put = url_String ?U"
      by auto
    then show ?thesis
      by - (rule exI [of _ "[]"], rule exI [of _ put], rule exI [of _ res])
  next
    case False
    then have big: "chunkSize < int (length content)" by simp
    from p2 have p2': "url_Parse (url_String (with_digest u0 digest)) = Inr u2" by (simp add: U)
    from chunked_final_write_sent [OF big assms p1 p2' ok] obtain xs res where
      "sent (snd (UploadBlobChunked registry repository digest content w))
         = sent w1 @ xs @ [(final_write u0 digest content, res)]"
      by blast
    then have "sent (snd (UploadBlobChunked registry repository digest content w))
         = sent w1 @ xs @ [(final_write u0 digest content, res)]
      \<and> Method (final_write u0 digest content) = ''PUT''
      \<and> Url (final_write u0 digest content) = url_String ?U"
      by (simp add: final_write_fields U)
    then show ?thesis
      by - (rule exI [of _ xs], rule exI [of _ "final_write u0 digest content"], rule exI [of _ res])
  qed
  have b1': "\<forall>u2. url_Parse (url_String ?U) = Inr u2
            \<longrightarrow> (\<exists>put res.
                  sent (snd (UploadBlob registry repository digest content w)) = sent w1 @ [(put, res)]
                \<and> Method put = ''PUT'' \<and> Url put = url_String ?U)"
    using b1 by blast
  have b2': "\<forall>u1 u2. url_Parse (url_String u0) = Inr u1
            \<and> url_Parse (url_String ?U) = Inr u2
            \<and> (\<forall>s r. Method r = ''PATCH'' \<longrightarrow> err_of (fst (Client registry s r)) = None)
            \<longrightarrow> (\<exists>patches put res.
                  sent (snd (UploadBlobChunked registry repository digest content w)) = sent w1 @ patches @ [(put, res)]
                \<and> Method put = ''PUT'' \<and> Url put = url_String ?U)"
  proof (intro allI impI)
    fix u1 u2
    assume h: "url_Parse (url_String u0) = Inr u1
            \<and> url_Parse (url_String ?U) = Inr u2
            \<and> (\<forall>s r. Method r = ''PATCH'' \<longrightarrow> err_of (fst (Client registry s r)) = None)"
    from h [THEN conjunct1] h [THEN conjunct2, THEN conjunct1] h [THEN conjunct2, THEN conjunct2]
    show "\<exists>patches put res.
                  sent (snd (UploadBlobChunked registry repository digest content w)) = sent w1 @ patches @ [(put, res)]
                \<and> Method put = ''PUT'' \<and> Url put = url_String ?U"
      by (rule b2)
  qed
  from s c b1' b2' q1 q2 show ?thesis by (intro conjI)
qed

theorem digest_parameter_keeps_parsed_parameters_witness:
  "(\<exists>put res.
       sent (snd (UploadBlob accepting ''library/alpine'' ''sha256:ab'' [1, 2, 3] world0))
         = sent (snd (initiateUpload accepting ''library/alpine'' world0)) @ [(put, res)]
     \<and> Method put = ''PUT''
     \<and> Url put = ''/v2/library/alpine/blobs/uploads/7f3a?_state=abc&digest=sha256%3Aab'')
   \<and> (\<exists>patches put res.
       sent (snd (UploadBlobChunked accepting ''library/alpine'' ''sha256:ab'' (replicate 20000000 0) world0))
         = sent (snd (initiateUpload accepting ''library/alpine'' world0)) @ patches @ [(put, res)]
     \<and> Method put = ''PUT''
     \<and> Url put = ''/v2/library/alpine/blobs/uploads/7f3a?_state=abc&digest=sha256%3Aab'')
   \<and> values_get (url_Query (session_url\<lparr>RawQuery :=
         values_Encode (values_Set (url_Query session_url) ''digest'' ''sha256:ab'')\<rparr>)) ''digest'' = [''sha256:ab'']
   \<and> values_get (url_Query (session_url\<lparr>RawQuery :=
         values_Encode (values_Set (url_Query session_url) ''digest'' ''sha256:ab'')\<rparr>)) ''_state'' = [''abc'']"
proof -
  let ?bs = "replicate 20000000 (0 :: byte)"
  let ?w1 = "snd (initiateUpload accepting ''library/alpine'' world0)"
  let ?U = "session_url\<lparr>RawQuery := values_Encode (values_Set (url_Query session_url) ''digest'' ''sha256:ab'')\<rparr>"
  let ?lit = "''/v2/library/alpine/blobs/uploads/7f3a?_state=abc&digest=sha256%3Aab''"
  have init: "initiateUpload accepting ''library/alpine'' world0 = (Inr session_url, ?w1)"
    by (simp add: accepting_initiate)
  have p2: "url_Parse (url_String ?U) = Inr (with_digest session_url ''sha256:ab'')"
    using parse_session_digest by (simp add: with_digest_def)
  have lit: "url_String ?U = ?lit"
    using string_session_digest by (simp add: with_digest_def)
  have ok: "\<forall>s r. Method r = ''PATCH'' \<longrightarrow> err_of (fst (Client accepting s r)) = None"
    by (simp add: accepting_answers)
  note keeps = digest_parameter_keeps_parsed_parameters [OF init, of "''sha256:ab''"]
  from keeps [of "[1, 2, 3]", THEN conjunct2, THEN conjunct2, THEN conjunct1, rule_format, OF p2]
  have e1: "\<exists>put res.
       sent (snd (UploadBlob accepting ''library/alpine'' ''sha256:ab'' [1, 2, 3] world0)) = sent ?w1 @ [(put, res)]
     \<and> Method put = ''PUT'' \<and> Url put = ?lit"
    unfolding lit .
  from keeps [of ?bs, THEN conjunct2, THEN conjunct2, THEN conjunct2, THEN conjunct1, rule_format,
      OF conjI [OF parse_string_session conjI [OF p2 ok]]]
  have e2: "\<exists>patches put res.
       sent (snd (UploadBlobChunked accepting ''library/alpine'' ''sha256:ab'' ?bs world0))
         = sent ?w1 @ patches @ [(put, res)]
     \<and> Method put = ''PUT'' \<and> Url put = ?lit"
    unfolding lit .
  from keeps [of "[]", THEN conjunct2, THEN conjunct2, THEN conjunct2, THEN conjunct2, THEN conjunct1]
  have q1: "values_get (url_Query ?U) ''digest'' = [''sha256:ab'']" .
  from keeps [of "[]", THEN conjunct2, THEN conjunct2, THEN conjunct2, THEN conjunct2, THEN conjunct2,
      rule_format, of "''_state''"]
  have q2: "values_get (url_Query ?U) ''_state'' = [''abc'']"
    by (simp add: session_state)
  from e1 e2 q1 q2 show ?thesis by (intro conjI)
qed

subsection \<open>Opening the session\<close>

lemma initiateUpload_unparseable_location:
  assumes "Client_Post registry (registry_url registry (''/v2/'' @ repository @ ''/blobs/uploads/''))
             ''application/octet-stream'' [] w = (Resp resp, w1)"
    and "url_Parse (Header_Get (Header resp) ''Location'') = Inl err"
  shows "fst (initiateUpload registry repository w) = Inl err"
  using assms by (simp add: initiateUpload_def)

lemma initiateUpload_unparseable_example:
  "fst (initiateUpload (answering (Resp (created '':7f3a''))) ''library/alpine'' world0)
     = Inl (UrlError ''parse'' '':7f3a'' (OtherError ''missing protocol scheme''))"
  by code_simp

text \<open>
  C4 asks \<^verbatim>\<open>initiateUpload\<close> to fail when the response has no \<^verbatim>\<open>Location\<close>
  header or one that does not parse. A location that does not parse is returned as the
  error of \<^verbatim>\<open>url.Parse\<close> (the two lemmas above). A missing header is not: \<^verbatim>\<open>Header.Get\<close>
  gives the empty string, \<^verbatim>\<open>url.Parse\<close> accepts it, and the call returns the empty
  URL and no error.
\<close>

theorem initiateUpload_missing_location:
  "fst (initiateUpload (answering (Resp (response_with 202))) ''library/alpine'' world0) = Inr empty_URL"
  by code_simp

end
